theory Spec2Isabelle
  imports Main "HOL-Library.Sublist" "HOL-Library.Monad_Syntax"
begin

section \<open>Strings and the regular expressions of the driver\<close>

text \<open>
  JavaScript strings are modelled as \<open>string\<close>; a \<open>char\<close> stands for one code unit
  below 256.  The driver's regular expressions only use the classes \<open>\d\<close>, \<open>\s\<close>,
  \<open>[A-Za-z_]\<close> and single characters, so each of them is written as a small matcher
  over the character list.  Every class is disjoint from the character that follows it in
  its pattern, so greedy matching without backtracking finds a match whenever one exists.
\<close>

definition is_digit :: "char \<Rightarrow> bool" where
  "is_digit c = (48 \<le> (of_char c :: nat) \<and> (of_char c :: nat) \<le> 57)"

definition digit_val :: "char \<Rightarrow> nat" where
  "digit_val c = (of_char c :: nat) - 48"

definition is_space :: "char \<Rightarrow> bool" where
  "is_space c = ((of_char c :: nat) \<in> {9, 10, 11, 12, 13, 32, 160})"

definition is_upper :: "char \<Rightarrow> bool" where
  "is_upper c = (65 \<le> (of_char c :: nat) \<and> (of_char c :: nat) \<le> 90)"

definition is_lower :: "char \<Rightarrow> bool" where
  "is_lower c = (97 \<le> (of_char c :: nat) \<and> (of_char c :: nat) \<le> 122)"

definition eq_ci :: "char \<Rightarrow> char \<Rightarrow> char \<Rightarrow> bool" where
  \<comment> \<open>\<open>eq_ci lo up c\<close>: \<open>c\<close> is the letter given in lower case and in upper case\<close>
  "eq_ci lo up c = (c = lo \<or> c = up)"

text \<open>\<open>parseInt(ds, 10)\<close> on a string of decimal digits.\<close>

definition dec_val :: "string \<Rightarrow> nat" where
  "dec_val ds = foldl (\<lambda>acc c. acc * 10 + digit_val c) 0 ds"

text \<open>\<open>s.indexOf(pat)\<close>: the first position at which \<open>pat\<close> starts, \<open>None\<close> for -1.\<close>

fun index_of :: "string \<Rightarrow> string \<Rightarrow> nat option" where
  "index_of pat [] = (if pat = [] then Some 0 else None)"
| "index_of pat (c # cs) =
     (if prefix pat (c # cs) then Some 0 else map_option Suc (index_of pat cs))"

definition str_includes :: "string \<Rightarrow> string \<Rightarrow> bool" where
  "str_includes s pat = (index_of pat s \<noteq> None)"

definition pad_start :: "nat \<Rightarrow> char \<Rightarrow> string \<Rightarrow> string" where
  "pad_start n c s = replicate (n - length s) c @ s"

text \<open>\<open>s.slice(-len)\<close> for \<open>len > 0\<close>: the last \<open>len\<close> characters, all of \<open>s\<close> when it is shorter.\<close>

definition slice_last :: "nat \<Rightarrow> string \<Rightarrow> string" where
  "slice_last len s = drop (length s - len) s"

text \<open>\<open>n.toString(2)\<close> and \<open>n.toString(10)\<close> on integers.\<close>

definition bit_char :: "nat \<Rightarrow> char" where
  "bit_char n = (if n mod 2 = 0 then CHR ''0'' else CHR ''1'')"

fun bin_of_nat :: "nat \<Rightarrow> string" where
  "bin_of_nat n = (if n < 2 then [bit_char n] else bin_of_nat (n div 2) @ [bit_char n])"

declare bin_of_nat.simps [simp del]

definition toString2 :: "int \<Rightarrow> string" where
  "toString2 i = (if i < 0 then CHR ''-'' # bin_of_nat (nat (- i)) else bin_of_nat (nat i))"

definition dec_char :: "nat \<Rightarrow> char" where
  "dec_char n = ''0123456789'' ! (n mod 10)"

fun dec_of_nat :: "nat \<Rightarrow> string" where
  "dec_of_nat n = (if n < 10 then [dec_char n] else dec_of_nat (n div 10) @ [dec_char n])"

declare dec_of_nat.simps [simp del]

definition toString10 :: "int \<Rightarrow> string" where
  "toString10 i = (if i < 0 then CHR ''-'' # dec_of_nat (nat (- i)) else dec_of_nat (nat i))"

text \<open>\<open>v.toUpperCase()\<close> on the ASCII letters.\<close>

definition upper_table :: "(char \<times> char) list" where
  "upper_table = zip ''abcdefghijklmnopqrstuvwxyz'' ''ABCDEFGHIJKLMNOPQRSTUVWXYZ''"

definition to_upper :: "char \<Rightarrow> char" where
  "to_upper c = (case map_of upper_table c of Some u \<Rightarrow> u | None \<Rightarrow> c)"

definition toUpperCase :: "string \<Rightarrow> string" where
  "toUpperCase s = map to_upper s"

section \<open>Arrow fields\<close>

datatype type_id =
    T_Date | T_DateDay | T_DateMillisecond | T_Timestamp | T_Struct | T_List
  | T_Binary | T_LargeBinary | T_FixedSizeBinary | T_Interval | T_Map | T_Other

datatype interval_unit = YEAR_MONTH | DAY_TIME | MONTH_DAY_NANO | NoUnit

text \<open>
  A field carries its name, the \<open>typeId\<close> of its type, the child fields of a struct type,
  the \<open>unit\<close> of an interval type and its metadata (a \<open>Map<string, string>\<close>, kept as an
  association list and read with \<open>map_of\<close>).
\<close>

datatype field =
  Field (fname: string) (typeId: type_id) (children: "field list")
        (funit: interval_unit) (metadata: "(string \<times> string) list")

definition md_get :: "field \<Rightarrow> string \<Rightarrow> string option" where
  "md_get f k = map_of (metadata f) k"

definition metadata_keys :: "string list" where
  "metadata_keys =
     [''duckdb.logicalType'', ''duckdb_type'', ''logicalType'', ''duckdb.logical_type'']"

subsection \<open>\<open>isBitField\<close>\<close>

definition isBitField :: "field \<Rightarrow> bool" where
  "isBitField f =
     (typeId f = T_FixedSizeBinary \<or>
      (\<exists>k \<in> set metadata_keys.
         case md_get f k of
           Some v \<Rightarrow> str_includes (toUpperCase v) ''BIT''
         | None \<Rightarrow> False))"

subsection \<open>\<open>toBitStringFromBytes\<close>\<close>

text \<open>
  The pattern \<open>/BIT\s*\(\s*(\d+)\s*\)/i\<close>.  \<open>match_bit_width\<close> matches it at the start of
  the string and returns the digits of the group; \<open>search_bit_width\<close> tries every start
  position from the left, as \<open>String.prototype.match\<close> does.
\<close>

definition match_bit_width :: "string \<Rightarrow> string option" where
  "match_bit_width s =
     (case s of
        b # i # t # r \<Rightarrow>
          if eq_ci (CHR ''b'') (CHR ''B'') b \<and> eq_ci (CHR ''i'') (CHR ''I'') i
             \<and> eq_ci (CHR ''t'') (CHR ''T'') t
          then (case dropWhile is_space r of
                  p # r1 \<Rightarrow>
                    if p = CHR ''(''
                    then (let r2 = dropWhile is_space r1;
                              ds = takeWhile is_digit r2;
                              r3 = dropWhile is_space (dropWhile is_digit r2)
                          in if ds \<noteq> [] \<and> r3 \<noteq> [] \<and> hd r3 = CHR '')''
                             then Some ds else None)
                    else None
                | [] \<Rightarrow> None)
          else None
      | _ \<Rightarrow> None)"

fun search_bit_width :: "string \<Rightarrow> string option" where
  "search_bit_width [] = None"
| "search_bit_width (c # cs) =
     (case match_bit_width (c # cs) of
        Some ds \<Rightarrow> Some ds
      | None \<Rightarrow> search_bit_width cs)"

text \<open>
  The loop over the metadata keys: the first key whose value declares a width
  \<open>BIT(n)\<close> with \<open>n > 0\<close> decides.
\<close>

fun declared_bit_length :: "string list \<Rightarrow> field \<Rightarrow> nat option" where
  "declared_bit_length [] f = None"
| "declared_bit_length (k # ks) f =
     (case md_get f k of
        Some v \<Rightarrow>
          (case search_bit_width v of
             Some ds \<Rightarrow>
               (let len = dec_val ds
                in if len > 0 then Some len else declared_bit_length ks f)
           | None \<Rightarrow> declared_bit_length ks f)
      | None \<Rightarrow> declared_bit_length ks f)"

definition byte_bits :: "int \<Rightarrow> string" where
  "byte_bits byte = pad_start 8 (CHR ''0'') (toString2 byte)"

definition bits_of_bytes :: "int list \<Rightarrow> string" where
  "bits_of_bytes bytes = concat (map byte_bits bytes)"

definition strip_leading_zeros :: "string \<Rightarrow> string" where
  \<comment> \<open>\<open>s.replace(/^0+/, "") || "0"\<close>\<close>
  "strip_leading_zeros s =
     (let t = dropWhile (\<lambda>c. c = CHR ''0'') s in if t = [] then ''0'' else t)"

definition toBitStringFromBytes :: "int list \<Rightarrow> field \<Rightarrow> string" where
  "toBitStringFromBytes bytes f =
     (let binaryStr = bits_of_bytes bytes
      in case declared_bit_length metadata_keys f of
           Some len \<Rightarrow> slice_last len binaryStr
         | None \<Rightarrow>
             (case index_of ''010101'' binaryStr of
                Some idx \<Rightarrow> take 6 (drop idx binaryStr)
              | None \<Rightarrow> strip_leading_zeros binaryStr))"

subsection \<open>\<open>likelyBitByBytes\<close>\<close>

definition zeros_then_bits :: "string \<Rightarrow> bool" where
  \<comment> \<open>\<open>/^0+[01]+$/\<close>\<close>
  "zeros_then_bits s =
     (case s of
        c # r \<Rightarrow> c = CHR ''0'' \<and> r \<noteq> [] \<and> (\<forall>x \<in> set r. x = CHR ''0'' \<or> x = CHR ''1'')
      | [] \<Rightarrow> False)"

definition likelyBitByBytes :: "int list \<Rightarrow> bool" where
  "likelyBitByBytes bytes =
     (case bytes of
        [first, second] \<Rightarrow>
          (let fullBinary = byte_bits first @ byte_bits second
           in str_includes fullBinary ''010101'' \<or> zeros_then_bits fullBinary)
      | _ \<Rightarrow> False)"

section \<open>JavaScript values\<close>

text \<open>
  The instant held by a \<open>Date\<close> object: a time value in milliseconds since the epoch,
  or the invalid instant (time value \<open>NaN\<close>), for which \<open>Number.isNaN(d.getTime())\<close> holds.
\<close>

datatype instant = At int | Invalid

definition is_valid_instant :: "instant \<Rightarrow> bool" where
  "is_valid_instant d = (d \<noteq> Invalid)"

text \<open>
  The raw values the execution engine delivers and the values the driver returns.
  \<open>JNum n\<close> is the number with the integer value \<open>n\<close> (Arrow delivers counts of days,
  milliseconds, months and rows as integers); numbers with a fraction are outside the model.
  \<open>JTyped\<close> is an \<open>ArrayBuffer\<close> view (\<open>Uint8Array\<close> or \<open>Int32Array\<close>) with its elements.
  \<open>JObject\<close> is any other object: its own enumerable properties as \<open>Object.entries\<close> lists
  them, and what its \<open>toArray\<close>, \<open>valueOf\<close> and \<open>toJSON\<close> methods return.
  A plain object is \<open>JObject kvs NoMethod ReturnsThis NoMethod\<close>.  Properties inherited
  from the prototype are not entries.
\<close>

datatype 'a meth = NoMethod | ReturnsThis | Returns 'a

datatype ta_kind = Uint8 | Int32

datatype jsval =
    JUndefined
  | JNull
  | JBool bool
  | JNum int
  | JNaN
  | JBigInt int
  | JStr string
  | JDate instant
  | JTyped ta_kind "int list"
  | JArray "jsval list"
  | JObject "(string \<times> jsval) list" "jsval meth" "jsval meth" "jsval meth"

text \<open>
  What the host decides and the model does not: the result of \<open>new Date(s)\<close> on a string
  outside the ECMAScript date-time format (implementation-defined), the string form of a
  valid \<open>Date\<close> (it depends on the local time zone), the string form of a number from
  \<open>2^53\<close> on (the shortest digits that identify the double, in exponent notation from
  \<open>10^21\<close>), and \<open>Math.floor(x / 1000)\<close> for a double
  \<open>x\<close> beyond the exactly representable integers, where the sum and the quotient round.
\<close>

record host =
  legacyDateParse :: "string \<Rightarrow> instant"
  dateToString :: "int \<Rightarrow> string"
  numberToString :: "int \<Rightarrow> string"
  floorDiv1000Rounded :: "int \<Rightarrow> int"

definition truthy :: "jsval \<Rightarrow> bool" where
  "truthy v =
     (case v of
        JUndefined \<Rightarrow> False | JNull \<Rightarrow> False | JBool b \<Rightarrow> b
      | JNum n \<Rightarrow> n \<noteq> 0 | JNaN \<Rightarrow> False | JBigInt n \<Rightarrow> n \<noteq> 0
      | JStr s \<Rightarrow> s \<noteq> [] | _ \<Rightarrow> True)"

definition or_zero :: "jsval \<Rightarrow> jsval" where
  \<comment> \<open>\<open>v || 0\<close>\<close>
  "or_zero v = (if truthy v then v else JNum 0)"

definition js_index :: "jsval list \<Rightarrow> nat \<Rightarrow> jsval" where
  \<comment> \<open>\<open>xs[i]\<close>: \<open>undefined\<close> out of range\<close>
  "js_index xs i = (if i < length xs then xs ! i else JUndefined)"

definition is_object :: "jsval \<Rightarrow> bool" where
  \<comment> \<open>\<open>value && typeof value === "object"\<close>\<close>
  "is_object v =
     (case v of
        JDate _ \<Rightarrow> True | JTyped _ _ \<Rightarrow> True | JArray _ \<Rightarrow> True
      | JObject _ _ _ _ \<Rightarrow> True | _ \<Rightarrow> False)"

definition Array_from :: "int list \<Rightarrow> jsval" where
  "Array_from xs = JArray (map JNum xs)"

text \<open>\<open>Object.entries\<close>: the indices of an array or a typed array are its keys.\<close>

definition indexed :: "jsval list \<Rightarrow> (string \<times> jsval) list" where
  "indexed xs = map (\<lambda>i. (dec_of_nat i, xs ! i)) [0 ..< length xs]"

definition Object_entries :: "jsval \<Rightarrow> (string \<times> jsval) list" where
  "Object_entries v =
     (case v of
        JObject kvs _ _ _ \<Rightarrow> kvs
      | JArray xs \<Rightarrow> indexed xs
      | JTyped _ xs \<Rightarrow> indexed (map JNum xs)
      | JStr s \<Rightarrow> indexed (map (\<lambda>c. JStr [c]) s)
      | _ \<Rightarrow> [])"

text \<open>\<open>obj[key] = v\<close>: an existing property keeps its place.\<close>

fun obj_set :: "(string \<times> jsval) list \<Rightarrow> string \<Rightarrow> jsval \<Rightarrow> (string \<times> jsval) list" where
  "obj_set [] k v = [(k, v)]"
| "obj_set ((k', v') # kvs) k v =
     (if k' = k then (k, v) # kvs else (k', v') # obj_set kvs k v)"

definition plain_object :: "(string \<times> jsval) list \<Rightarrow> jsval" where
  "plain_object kvs = JObject kvs NoMethod ReturnsThis NoMethod"


section \<open>Dates\<close>

text \<open>The day and time arithmetic of ECMAScript: \<open>MakeDay\<close>, \<open>MakeTime\<close>, \<open>MakeDate\<close>, \<open>TimeClip\<close>.\<close>

definition is_leap :: "int \<Rightarrow> bool" where
  "is_leap y = (y mod 4 = 0 \<and> (y mod 100 \<noteq> 0 \<or> y mod 400 = 0))"

definition DayFromYear :: "int \<Rightarrow> int" where
  "DayFromYear y =
     365 * (y - 1970) + (y - 1969) div 4 - (y - 1901) div 100 + (y - 1601) div 400"

definition month_lengths :: "int \<Rightarrow> int list" where
  "month_lengths y = [31, if is_leap y then 29 else 28, 31, 30, 31, 30, 31, 31, 30, 31, 30, 31]"

definition MakeDay :: "int \<Rightarrow> int \<Rightarrow> int \<Rightarrow> int" where
  "MakeDay year month date =
     (let ym = year + month div 12; mn = nat (month mod 12)
      in DayFromYear ym + sum_list (take mn (month_lengths ym)) + date - 1)"

definition MakeTime :: "int \<Rightarrow> int \<Rightarrow> int \<Rightarrow> int \<Rightarrow> int" where
  "MakeTime hour minute sec ms = hour * 3600000 + minute * 60000 + sec * 1000 + ms"

definition MakeDate :: "int \<Rightarrow> int \<Rightarrow> int" where
  "MakeDate day time = day * 86400000 + time"

definition TimeClip :: "int \<Rightarrow> instant" where
  "TimeClip t = (if \<bar>t\<bar> > 8640000000000000 then Invalid else At t)"

definition Date_UTC :: "int \<Rightarrow> int \<Rightarrow> int \<Rightarrow> int \<Rightarrow> int \<Rightarrow> int \<Rightarrow> int \<Rightarrow> instant" where
  "Date_UTC y m dt h mi s milli =
     (let yr = (if 0 \<le> y \<and> y \<le> 99 then 1900 + y else y)
      in TimeClip (MakeDate (MakeDay yr m dt) (MakeTime h mi s milli)))"

subsection \<open>Matching date strings\<close>

definition digits_n :: "nat \<Rightarrow> string \<Rightarrow> (string \<times> string) option" where
  \<comment> \<open>\<open>\d{n}\<close>: the digits and the rest\<close>
  "digits_n n s =
     (if n \<le> length s \<and> (\<forall>c \<in> set (take n s). is_digit c)
      then Some (take n s, drop n s) else None)"

definition expect :: "char \<Rightarrow> string \<Rightarrow> string option" where
  "expect c s = (case s of x # r \<Rightarrow> if x = c then Some r else None | [] \<Rightarrow> None)"

definition expect_sep :: "string \<Rightarrow> string option" where
  \<comment> \<open>\<open>[ T]\<close>\<close>
  "expect_sep s =
     (case s of x # r \<Rightarrow> if x = CHR '' '' \<or> x = CHR ''T'' then Some r else None | [] \<Rightarrow> None)"

text \<open>
  The groups of
  \<open>/^(\d{4})-(\d{2})-(\d{2})(?:[ T](\d{2}):(\d{2}):(\d{2})(?:\.(\d{1,6}))?)?$/\<close>:
  year, month, day, and when the time is there hour, minute, second and the fraction.
\<close>

type_synonym time_groups = "string \<times> string \<times> string \<times> string option"
type_synonym date_groups = "string \<times> string \<times> string \<times> time_groups option"

definition match_fraction :: "string \<Rightarrow> string option option" where
  \<comment> \<open>\<open>(?:\.(\d{1,6}))?$\<close>\<close>
  "match_fraction r =
     (if r = [] then Some None
      else do {
        f \<leftarrow> expect (CHR ''.'') r;
        if f \<noteq> [] \<and> length f \<le> 6 \<and> (\<forall>c \<in> set f. is_digit c) then Some (Some f) else None
      })"

definition match_time :: "string \<Rightarrow> time_groups option option" where
  "match_time r =
     (if r = [] then Some None
      else do {
        r \<leftarrow> expect_sep r;
        (hh, r) \<leftarrow> digits_n 2 r;
        r \<leftarrow> expect (CHR '':'') r;
        (mm, r) \<leftarrow> digits_n 2 r;
        r \<leftarrow> expect (CHR '':'') r;
        (ss, r) \<leftarrow> digits_n 2 r;
        fr \<leftarrow> match_fraction r;
        Some (Some (hh, mm, ss, fr))
      })"

definition match_date :: "string \<Rightarrow> date_groups option" where
  "match_date s =
     do {
       (y, r) \<leftarrow> digits_n 4 s;
       r \<leftarrow> expect (CHR ''-'') r;
       (mo, r) \<leftarrow> digits_n 2 r;
       r \<leftarrow> expect (CHR ''-'') r;
       (d, r) \<leftarrow> digits_n 2 r;
       t \<leftarrow> match_time r;
       Some (y, mo, d, t)
     }"

definition date_of_groups :: "date_groups \<Rightarrow> instant" where
  "date_of_groups g =
     (case g of (m1, m2, m3, t) \<Rightarrow>
        (let y = int (dec_val m1);
             mo = int (dec_val m2) - 1;
             d = int (dec_val m3);
             hh = (case t of Some (m4, _, _, _) \<Rightarrow> int (dec_val m4) | None \<Rightarrow> 0);
             mm = (case t of Some (_, m5, _, _) \<Rightarrow> int (dec_val m5) | None \<Rightarrow> 0);
             ss = (case t of Some (_, _, m6, _) \<Rightarrow> int (dec_val m6) | None \<Rightarrow> 0);
             ms = (case t of
                     Some (_, _, _, Some m7) \<Rightarrow> int (dec_val (take 3 (m7 @ ''000'')))
                   | _ \<Rightarrow> 0)
         in Date_UTC y mo d hh mm ss ms))"

subsection \<open>\<open>new Date(string)\<close>\<close>

text \<open>
  The ECMAScript date-time format with seconds and an explicit offset,
  \<open>YYYY-MM-DDTHH:mm:ss\<close>, optionally \<open>.sss\<close>, then \<open>Z\<close> or \<open>+HH:mm\<close> or \<open>-HH:mm\<close>, with every
  element in its legal range.  The time value is that of the fields taken as UTC, less the
  offset.  Any other string is left to the host's parser.
\<close>

definition parse_offset :: "string \<Rightarrow> int option" where
  \<comment> \<open>the offset in minutes\<close>
  "parse_offset r =
     (if r = ''Z'' then Some 0
      else (case r of
              sg # r1 \<Rightarrow>
                if sg = CHR ''+'' \<or> sg = CHR ''-''
                then do {
                  (oh, r2) \<leftarrow> digits_n 2 r1;
                  r3 \<leftarrow> expect (CHR '':'') r2;
                  (om, r4) \<leftarrow> digits_n 2 r3;
                  if r4 = [] \<and> dec_val oh \<le> 23 \<and> dec_val om \<le> 59
                  then Some ((if sg = CHR ''-'' then - 1 else 1)
                             * (int (dec_val oh) * 60 + int (dec_val om)))
                  else None
                }
                else None
            | [] \<Rightarrow> None))"

definition parse_millis :: "string \<Rightarrow> (int \<times> string) option" where
  \<comment> \<open>the optional \<open>.sss\<close>\<close>
  "parse_millis r =
     (case r of
        x # r1 \<Rightarrow>
          if x = CHR ''.''
          then do { (f, r2) \<leftarrow> digits_n 3 r1; Some (int (dec_val f), r2) }
          else Some (0, r)
      | [] \<Rightarrow> Some (0, r))"

definition parse_es_datetime :: "string \<Rightarrow> int option" where
  "parse_es_datetime s =
     do {
       (y, r) \<leftarrow> digits_n 4 s;
       r \<leftarrow> expect (CHR ''-'') r;
       (mo, r) \<leftarrow> digits_n 2 r;
       r \<leftarrow> expect (CHR ''-'') r;
       (d, r) \<leftarrow> digits_n 2 r;
       r \<leftarrow> expect (CHR ''T'') r;
       (hh, r) \<leftarrow> digits_n 2 r;
       r \<leftarrow> expect (CHR '':'') r;
       (mi, r) \<leftarrow> digits_n 2 r;
       r \<leftarrow> expect (CHR '':'') r;
       (ss, r) \<leftarrow> digits_n 2 r;
       (ms, r) \<leftarrow> parse_millis r;
       off \<leftarrow> parse_offset r;
       (let yv = int (dec_val y); mv = dec_val mo; dv = int (dec_val d)
        in if 1 \<le> mv \<and> mv \<le> 12 \<and> 1 \<le> dv \<and> dv \<le> month_lengths yv ! (mv - 1)
              \<and> dec_val hh \<le> 23 \<and> dec_val mi \<le> 59 \<and> dec_val ss \<le> 59
           then Some (MakeDate (MakeDay yv (int mv - 1) dv)
                               (MakeTime (int (dec_val hh)) (int (dec_val mi))
                                         (int (dec_val ss)) ms)
                      - off * 60000)
           else None)
     }"

definition new_Date_string :: "host \<Rightarrow> string \<Rightarrow> instant" where
  "new_Date_string h s =
     (case parse_es_datetime s of
        Some t \<Rightarrow> TimeClip t
      | None \<Rightarrow> legacyDateParse h s)"

subsection \<open>\<open>toDateFromValue\<close>\<close>

definition date_of_number :: "int \<Rightarrow> jsval" where
  \<comment> \<open>small numbers are days since the epoch, large ones milliseconds\<close>
  "date_of_number num =
     (if \<bar>num\<bar> < 10000000 then JDate (TimeClip (num * 86400000)) else JDate (TimeClip num))"

text \<open>
  \<open>Number(value)\<close> of a \<open>bigint\<close> rounds to a double beyond \<open>2^53\<close>; every such value is
  above the largest time value \<open>8.64e15\<close> before and after rounding, so the instant is the
  same as for the integer itself.
\<close>

definition toDateFromValue :: "host \<Rightarrow> jsval \<Rightarrow> jsval" where
  "toDateFromValue h v =
     (case v of
        JDate d \<Rightarrow> v
      | JNum n \<Rightarrow> date_of_number n
      | JNaN \<Rightarrow> JDate Invalid
      | JBigInt n \<Rightarrow> date_of_number n
      | JStr s \<Rightarrow>
          (case match_date s of
             Some m \<Rightarrow> JDate (date_of_groups m)
           | None \<Rightarrow>
               (let parsed = new_Date_string h s
                in if is_valid_instant parsed then JDate parsed else JDate Invalid))
      | JTyped k xs \<Rightarrow> (case xs of [num] \<Rightarrow> date_of_number num | _ \<Rightarrow> v)
      | _ \<Rightarrow> v)"

section \<open>\<open>convertArrowValue\<close>\<close>

subsection \<open>Map values\<close>

definition join :: "string \<Rightarrow> string list \<Rightarrow> string" where
  "join sep xs = (case xs of [] \<Rightarrow> [] | x # r \<Rightarrow> x @ concat (map (\<lambda>y. sep @ y) r))"

text \<open>
  The string a template literal makes of a value.  An integer below \<open>2^53\<close> in magnitude
  is printed with its decimal digits; a larger number is printed by the host.  An object
  without a \<open>toString\<close> of its own gives \<open>[object Object]\<close>; an array joins its elements
  with a comma.
\<close>

fun js_ToString :: "host \<Rightarrow> jsval \<Rightarrow> string" where
  "js_ToString h JUndefined = ''undefined''"
| "js_ToString h JNull = ''null''"
| "js_ToString h (JBool b) = (if b then ''true'' else ''false'')"
| "js_ToString h (JNum n) =
     (if \<bar>n\<bar> < 9007199254740992 then toString10 n else numberToString h n)"
| "js_ToString h JNaN = ''NaN''"
| "js_ToString h (JBigInt n) = toString10 n"
| "js_ToString h (JStr s) = s"
| "js_ToString h (JDate d) = (case d of At t \<Rightarrow> dateToString h t | Invalid \<Rightarrow> ''Invalid Date'')"
| "js_ToString h (JTyped k xs) = join '','' (map toString10 xs)"
| "js_ToString h (JArray xs) =
     join '','' (map (\<lambda>x. if x = JNull \<or> x = JUndefined then [] else js_ToString h x) xs)"
| "js_ToString h (JObject kvs a b c) = ''[object Object]''"

definition map_string :: "host \<Rightarrow> (string \<times> jsval) list \<Rightarrow> string" where
  \<comment> \<open>\<open>`{${pairs.join(", ")}}`\<close> with the pairs \<open>`${key}=${val}`\<close>\<close>
  "map_string h entries =
     ''{'' @ join '', '' (map (\<lambda>(key, val). key @ ''='' @ js_ToString h val) entries) @ ''}''"

subsection \<open>Timestamps\<close>

definition is_sign :: "char \<Rightarrow> bool" where
  "is_sign c = (c = CHR ''+'' \<or> c = CHR ''-'')"

definition ends_with_offset :: "string \<Rightarrow> bool" where
  \<comment> \<open>\<open>[+-]\d{2}:?\d{2}$\<close>\<close>
  "ends_with_offset s =
     ((case drop (length s - 6) s of
         [sg, a, b, c, d, e] \<Rightarrow>
           is_sign sg \<and> is_digit a \<and> is_digit b \<and> c = CHR '':'' \<and> is_digit d \<and> is_digit e
       | _ \<Rightarrow> False)
      \<or> (case drop (length s - 5) s of
            [sg, a, b, d, e] \<Rightarrow> is_sign sg \<and> is_digit a \<and> is_digit b \<and> is_digit d \<and> is_digit e
          | _ \<Rightarrow> False))"

definition has_timezone :: "string \<Rightarrow> bool" where
  \<comment> \<open>\<open>/Z|[+-]\d{2}:?\d{2}$/.test(value)\<close>\<close>
  "has_timezone s = (CHR ''Z'' \<in> set s \<or> ends_with_offset s)"

fun replace_space :: "string \<Rightarrow> string" where
  \<comment> \<open>\<open>value.replace(" ", "T")\<close>: the first space only\<close>
  "replace_space [] = []"
| "replace_space (c # cs) = (if c = CHR '' '' then CHR ''T'' # cs else c # replace_space cs)"

definition convert_timestamp :: "host \<Rightarrow> jsval \<Rightarrow> jsval option" where
  \<comment> \<open>\<open>None\<close>: the case ends with \<open>break\<close>\<close>
  "convert_timestamp h v =
     (case v of
        JDate d \<Rightarrow> Some v
      | JStr s \<Rightarrow>
          if has_timezone s then Some (JDate (new_Date_string h (replace_space s)))
          else Some (JDate (new_Date_string h (replace_space s @ ''Z'')))
      | JNum n \<Rightarrow> Some (JDate (TimeClip n))
      | JNaN \<Rightarrow> Some (JDate Invalid)
      | JBigInt n \<Rightarrow> Some (JDate (TimeClip n))
      | _ \<Rightarrow> None)"

subsection \<open>Lists\<close>

definition call_method :: "jsval meth \<Rightarrow> jsval \<Rightarrow> jsval" where
  "call_method m this = (case m of Returns r \<Rightarrow> r | _ \<Rightarrow> this)"

definition unview :: "jsval \<Rightarrow> jsval" where
  \<comment> \<open>\<open>ArrayBuffer.isView(arr) ? Array.from(arr) : arr\<close>\<close>
  "unview arr = (case arr of JTyped k xs \<Rightarrow> Array_from xs | _ \<Rightarrow> arr)"

definition convert_list :: "jsval \<Rightarrow> jsval option" where
  "convert_list v =
     (case v of
        JObject kvs toArray valueOf toJSON \<Rightarrow>
          if toArray \<noteq> NoMethod then Some (unview (call_method toArray v)) else None
      | _ \<Rightarrow> None)"

subsection \<open>Binary values\<close>

definition le_bytes32 :: "int \<Rightarrow> int list" where
  "le_bytes32 x =
     (let u = x mod 4294967296
      in [u mod 256, u div 256 mod 256, u div 65536 mod 256, u div 16777216 mod 256])"

definition buffer_bytes :: "ta_kind \<Rightarrow> int list \<Rightarrow> int list" where
  \<comment> \<open>the bytes under a view, in the little-endian order of the platform\<close>
  "buffer_bytes k xs = (case k of Uint8 \<Rightarrow> xs | Int32 \<Rightarrow> concat (map le_bytes32 xs))"

definition convert_binary :: "jsval \<Rightarrow> field \<Rightarrow> jsval option" where
  "convert_binary v f =
     (case v of
        JTyped k bytes \<Rightarrow>
          if isBitField f then Some (JStr (toBitStringFromBytes bytes f))
          else if likelyBitByBytes bytes then Some (JStr (toBitStringFromBytes bytes f))
          else Some (JTyped Uint8 (buffer_bytes k bytes))
      | _ \<Rightarrow> None)"

definition convert_fixed_binary :: "jsval \<Rightarrow> field \<Rightarrow> jsval option" where
  "convert_fixed_binary v f =
     (case v of
        JTyped k bytes \<Rightarrow> Some (JStr (toBitStringFromBytes bytes f))
      | _ \<Rightarrow> None)"

subsection \<open>Intervals\<close>

text \<open>
  The elements of a typed array are numbers, so \<open>arr[i] || 0\<close> is the element itself.  The
  elements of a plain array are any values.
\<close>

definition interval_object :: "jsval \<Rightarrow> jsval \<Rightarrow> jsval \<Rightarrow> jsval" where
  "interval_object months days micros =
     plain_object [(''months'', months), (''days'', days), (''micros'', micros)]"

definition floor_div_1000 :: "host \<Rightarrow> int \<Rightarrow> int" where
  \<comment> \<open>\<open>Math.floor(nanos / 1000)\<close>: exact while the doubles involved are exact\<close>
  "floor_div_1000 h nanos =
     (if \<bar>nanos\<bar> < 9007199254740992 then nanos div 1000 else floorDiv1000Rounded h nanos)"

definition convert_interval :: "host \<Rightarrow> jsval \<Rightarrow> field \<Rightarrow> jsval option" where
  "convert_interval h v f =
     (case v of
        JArray xs \<Rightarrow>
          if length xs \<ge> 3
          then Some (interval_object (or_zero (js_index xs 0)) (or_zero (js_index xs 1))
                                     (or_zero (js_index xs 2)))
          else if length xs \<ge> 2
          then Some (interval_object (or_zero (js_index xs 0)) (or_zero (js_index xs 1)) (JNum 0))
          else None
      | JTyped k arr \<Rightarrow>
          if length arr \<ge> 4
          then (let months = arr ! 0; days = arr ! 1; nanosHigh = arr ! 2; nanosLow = arr ! 3;
                    nanos = nanosHigh * 4294967296 + nanosLow;
                    micros = floor_div_1000 h nanos
                in Some (interval_object (JNum months) (JNum days) (JNum micros)))
          else if length arr \<ge> 3
          then Some (interval_object (JNum (arr ! 0)) (JNum (arr ! 1)) (JNum (arr ! 2)))
          else if length arr \<ge> 2
          then (if funit f = YEAR_MONTH
                then Some (interval_object (JNum (arr ! 0 * 12 + arr ! 1)) (JNum 0) (JNum 0))
                else if funit f = DAY_TIME
                then Some (interval_object (JNum 0) (JNum (arr ! 0)) (JNum (arr ! 1 * 1000)))
                else if funit f = MONTH_DAY_NANO
                then Some (interval_object (JNum (arr ! 0 * 12 + arr ! 1)) (JNum 0) (JNum 0))
                else Some (interval_object (JNum (arr ! 0)) (JNum (arr ! 1)) (JNum 0)))
          else None
      | _ \<Rightarrow> None)"

subsection \<open>The generic conversion\<close>

definition generic_fallback :: "jsval \<Rightarrow> jsval" where
  "generic_fallback v =
     (case v of
        JTyped k xs \<Rightarrow> Array_from xs
      | JObject kvs toArray valueOf toJSON \<Rightarrow>
          if toArray \<noteq> NoMethod then unview (call_method toArray v)
          else if valueOf \<noteq> NoMethod then call_method valueOf v
          else if toJSON \<noteq> NoMethod then call_method toJSON v
          else v
      | JArray xs \<Rightarrow> v
      | JDate d \<Rightarrow> (case d of At t \<Rightarrow> JNum t | Invalid \<Rightarrow> JNaN)
      | _ \<Rightarrow> v)"

subsection \<open>The conversion\<close>

definition is_nullish :: "jsval \<Rightarrow> bool" where
  "is_nullish v = (v = JNull \<or> v = JUndefined)"

text \<open>
  The order in which an object lists its own properties: first the keys that are array
  indices (the canonical decimal form of an integer from 0 to \<open>2^32 - 2\<close>) in ascending
  numeric order, then the other keys in the order of their creation.
\<close>

definition is_array_index :: "string \<Rightarrow> bool" where
  "is_array_index k =
     (k \<noteq> [] \<and> (\<forall>c \<in> set k. is_digit c) \<and> (k = ''0'' \<or> hd k \<noteq> CHR ''0'')
      \<and> int (dec_val k) \<le> 4294967294)"

definition own_property_order :: "(string \<times> jsval) list \<Rightarrow> (string \<times> jsval) list" where
  "own_property_order kvs =
     sort_key (\<lambda>(k, v). dec_val k) (filter (\<lambda>(k, v). is_array_index k) kvs)
     @ filter (\<lambda>(k, v). \<not> is_array_index k) kvs"

definition build_object :: "(string \<times> jsval) list \<Rightarrow> jsval" where
  \<comment> \<open>the assignments \<open>result[key] = x\<close> in their order, on an empty object\<close>
  "build_object pairs =
     plain_object (own_property_order (foldl (\<lambda>res (k, x). obj_set res k x) [] pairs))"

lemma child_size: "c \<in> set (children f) \<Longrightarrow> size c < size f"
  by (cases f) (auto simp: less_Suc_eq_le size_list_estimation')

lemma found_child_size: "find P (children f) = Some c \<Longrightarrow> size c < size f"
  by (rule child_size) (auto simp: find_Some_iff)

function convertArrowValue :: "host \<Rightarrow> jsval \<Rightarrow> field \<Rightarrow> jsval" where
  "convertArrowValue h v f =
     (if is_nullish v then v
      else if typeId f = T_Map \<and> is_object v \<and> Object_entries v \<noteq> []
      then JStr (map_string h (Object_entries v))
      else
        (case (case typeId f of
                 T_Date \<Rightarrow> Some (toDateFromValue h v)
               | T_DateDay \<Rightarrow> Some (toDateFromValue h v)
               | T_DateMillisecond \<Rightarrow> Some (toDateFromValue h v)
               | T_Timestamp \<Rightarrow> convert_timestamp h v
               | T_Struct \<Rightarrow>
                   (if is_object v
                    then (case v of
                            JArray xs \<Rightarrow>
                              Some (build_object
                                (map (\<lambda>(childField, x). (fname childField, convertArrowValue h x childField))
                                     (zip (children f) xs)))
                          | _ \<Rightarrow>
                              Some (build_object
                                (map (\<lambda>(key, val).
                                        (key, case find (\<lambda>c. fname c = key) (children f) of
                                                Some childField \<Rightarrow> convertArrowValue h val childField
                                              | None \<Rightarrow> val))
                                     (Object_entries v))))
                    else None)
               | T_List \<Rightarrow> convert_list v
               | T_Binary \<Rightarrow> convert_binary v f
               | T_LargeBinary \<Rightarrow> convert_binary v f
               | T_FixedSizeBinary \<Rightarrow> convert_fixed_binary v f
               | T_Interval \<Rightarrow> convert_interval h v f
               | _ \<Rightarrow> None) of
           Some r \<Rightarrow> r
         | None \<Rightarrow> generic_fallback v))"
  by pat_completeness auto
termination
  by (relation "measure (\<lambda>(h, v, f). size f)")
     (auto simp: child_size dest: set_zip_leftD found_child_size)

declare convertArrowValue.simps [simp del]

section \<open>\<open>formatToResult\<close>\<close>


datatype js_error = RangeError | TypeError | Error string







section \<open>The query compiler\<close>

text \<open>
  The operation nodes a table reference involves.  A table node has the optional schema
  and the name of its identifier; the alias the compiler looks for is a property of the
  node itself or of its \<open>table\<close>.  An alias is an operation node (it has a \<open>kind\<close>), a
  string, an object with an \<open>identifier.name\<close>, or something else.  \<open>RawNode\<close> stands for
  any other node, with the text its visitor appends.
\<close>

datatype op_node =
    IdentifierNode string
  | RawNode string
  | TableNode (table_schema: "string option") (table_name: string)
              (node_alias: "alias_value option") (table_alias: "alias_value option")
  | AliasNode op_node op_node
and alias_value =
    AliasNodeKind op_node
  | AliasString string
  | AliasIdentifierLike string
  | AliasOther

type_synonym tableMappings = "string \<rightharpoonup> string"

definition getLeftIdentifierWrapper :: string where
  "getLeftIdentifierWrapper = [CHR 0x22]"

definition getRightIdentifierWrapper :: string where
  "getRightIdentifierWrapper = [CHR 0x22]"

definition sanitizeIdentifier :: "string \<Rightarrow> string" where
  \<comment> \<open>\<open>identifier.replace(/"/g, '""')\<close>\<close>
  "sanitizeIdentifier identifier =
     concat (map (\<lambda>c. if c = CHR 0x22 then [CHR 0x22, CHR 0x22] else [c]) identifier)"

definition quote_identifier :: "string \<Rightarrow> string" where
  "quote_identifier n = getLeftIdentifierWrapper @ sanitizeIdentifier n @ getRightIdentifierWrapper"

definition is_alias_node :: "op_node option \<Rightarrow> bool" where
  \<comment> \<open>\<open>parent && parent.kind === 'AliasNode'\<close>\<close>
  "is_alias_node parent = (case parent of Some (AliasNode n a) \<Rightarrow> True | _ \<Rightarrow> False)"

definition alias_truthy :: "alias_value option \<Rightarrow> bool" where
  "alias_truthy a = (case a of None \<Rightarrow> False | Some (AliasString s) \<Rightarrow> s \<noteq> [] | Some _ \<Rightarrow> True)"

definition coalesce :: "alias_value option \<Rightarrow> alias_value option \<Rightarrow> alias_value option" where
  \<comment> \<open>\<open>a ?? b\<close>\<close>
  "coalesce a b = (case a of None \<Rightarrow> b | Some x \<Rightarrow> a)"

text \<open>
  Modelled from the spec: the visitors of the query builder's base compiler, which are not
  part of this repository.  An identifier is wrapped in the quote character with every
  embedded quote character doubled; a table reference is its optional schema, a dot and its
  name, each so quoted; an alias node is its node, \<open>as\<close> and its alias.  The parent of a
  node is the node next on the visitor's stack.  The functions return the text they append.
  \<open>visitTable\<close> is the compiler's own override; it is only ever called on a table node.
\<close>

definition default_visitTable :: "string option \<Rightarrow> string \<Rightarrow> string" where
  "default_visitTable sch name =
     (case sch of Some s \<Rightarrow> quote_identifier s @ ''.'' | None \<Rightarrow> []) @ quote_identifier name"

function visitNode :: "tableMappings \<Rightarrow> op_node option \<Rightarrow> op_node \<Rightarrow> string"
and visitTable :: "tableMappings \<Rightarrow> op_node option \<Rightarrow> op_node \<Rightarrow> string" where
  "visitNode cfg parent (IdentifierNode n) = quote_identifier n"
| "visitNode cfg parent (RawNode t) = t"
| "visitNode cfg parent (TableNode sch name na ta) = visitTable cfg parent (TableNode sch name na ta)"
| "visitNode cfg parent (AliasNode n a) =
     visitNode cfg (Some (AliasNode n a)) n @ '' as '' @ visitNode cfg (Some (AliasNode n a)) a"
| "visitTable cfg parent (TableNode sch name na ta) =
     (case cfg name of
        Some mapped \<Rightarrow>
          mapped @
          (if \<not> is_alias_node parent
           then (let alias = coalesce na ta
                 in if alias_truthy alias
                    then '' as '' @
                         (case alias of
                            Some (AliasNodeKind a) \<Rightarrow>
                              visitNode cfg (Some (TableNode sch name na ta)) a
                          | Some (AliasString a) \<Rightarrow>
                              getLeftIdentifierWrapper @ sanitizeIdentifier a
                              @ getRightIdentifierWrapper
                          | Some (AliasIdentifierLike a) \<Rightarrow>
                              if a \<noteq> []
                              then getLeftIdentifierWrapper @ sanitizeIdentifier a
                                   @ getRightIdentifierWrapper
                              else []
                          | _ \<Rightarrow> [])
                    else [])
           else [])
      | None \<Rightarrow> default_visitTable sch name)"
| "visitTable cfg parent (IdentifierNode n) = []"
| "visitTable cfg parent (RawNode t) = []"
| "visitTable cfg parent (AliasNode n a) = []"
  by pat_completeness auto
termination
  by (relation "measure (\<lambda>x. case x of Inl (cfg, p, n) \<Rightarrow> 2 * size n + 1
                                      | Inr (cfg, p, n) \<Rightarrow> 2 * size n)")
     (auto simp: coalesce_def split: option.splits)

section \<open>\<open>createTablesAsSelect\<close>\<close>

definition is_alpha :: "char \<Rightarrow> bool" where
  "is_alpha c = (is_upper c \<or> is_lower c)"

definition IDENTIFIER_RE_source :: string where
  "IDENTIFIER_RE_source = ''^[A-Za-z_][A-Za-z0-9_]*$''"

definition IDENTIFIER_RE_test :: "string \<Rightarrow> bool" where
  "IDENTIFIER_RE_test name =
     (case name of
        c # r \<Rightarrow> (is_alpha c \<or> c = CHR ''_'')
                 \<and> (\<forall>x \<in> set r. is_alpha x \<or> is_digit x \<or> x = CHR ''_'')
      | [] \<Rightarrow> False)"

definition invalid_name_message :: "string \<Rightarrow> string" where
  "invalid_name_message name =
     ''Invalid table name: '' @ name @ ''. Names must match '' @ IDENTIFIER_RE_source"

text \<open>
  The connection: the statements issued so far and the state of the engine.  The engine is
  a parameter: it answers a statement with an error or with its next state.  The tables
  are the entries of the argument in the order of \<open>Object.keys\<close>, each with the compiled
  text of its select query.
\<close>

record 'e conn =
  issued :: "string list"
  engine :: 'e

type_synonym 'e exec = "string \<Rightarrow> 'e \<Rightarrow> js_error + 'e"

definition executeQuery :: "'e exec \<Rightarrow> string \<Rightarrow> 'e conn \<Rightarrow> 'e conn \<times> (js_error + unit)" where
  "executeQuery ex q c =
     (case ex q (engine c) of
        Inl e \<Rightarrow> (c\<lparr>issued := issued c @ [q]\<rparr>, Inl e)
      | Inr e' \<Rightarrow> (c\<lparr>issued := issued c @ [q], engine := e'\<rparr>, Inr ()))"

definition ctas :: "string \<Rightarrow> string \<Rightarrow> string" where
  \<comment> \<open>\<open>sql`CREATE TABLE ${sql.id(name)} AS (${tables[tableName]})`\<close>\<close>
  "ctas name q = ''CREATE TABLE '' @ quote_identifier name @ '' AS ('' @ q @ '')''"

fun createTablesAsSelect ::
  "'e exec \<Rightarrow> (string \<times> string) list \<Rightarrow> 'e conn \<Rightarrow> 'e conn \<times> (js_error + unit)" where
  "createTablesAsSelect ex [] c = (c, Inr ())"
| "createTablesAsSelect ex ((name, q) # tables) c =
     (if \<not> IDENTIFIER_RE_test name then (c, Inl (Error (invalid_name_message name)))
      else (case executeQuery ex (ctas name q) c of
              (c', Inl e) \<Rightarrow> (c', Inl e)
            | (c', Inr u) \<Rightarrow> createTablesAsSelect ex tables c'))"

section \<open>Reference definitions\<close>

text \<open>
  A host whose parser accepts nothing beyond the modelled date-time format, whose dates
  and large numbers print as their integer value and whose division is exact.
\<close>

definition plain_host :: host where
  "plain_host =
     \<lparr>legacyDateParse = (\<lambda>s. Invalid), dateToString = toString10,
      numberToString = toString10,
      floorDiv1000Rounded = (\<lambda>n. n div 1000)\<rparr>"

text \<open>
  A metadata hint that cannot declare a width: the key is absent, or its value has no
  opening parenthesis.
\<close>

definition plain_hint :: "string option \<Rightarrow> bool" where
  "plain_hint v = (case v of None \<Rightarrow> True | Some s \<Rightarrow> CHR ''('' \<notin> set s)"

text \<open>
  The bit-string rendering in the words of the specification: the declared-width suffix,
  and without a declared width the expansion with its leading zeros removed.
\<close>

definition spec_bit_rendering :: "int list \<Rightarrow> field \<Rightarrow> string" where
  "spec_bit_rendering bytes f =
     (case declared_bit_length metadata_keys f of
        Some n \<Rightarrow> slice_last n (bits_of_bytes bytes)
      | None \<Rightarrow> strip_leading_zeros (bits_of_bytes bytes))"








text \<open>An engine that accepts every statement, and a connection that has issued nothing.\<close>

definition accept_all :: "unit exec" where
  "accept_all q e = Inr e"

definition fresh_conn :: "unit conn" where
  "fresh_conn = \<lparr>issued = [], engine = ()\<rparr>"

text \<open>The table mappings of the compile tests: \<open>person\<close> reads a JSON file.\<close>

definition person_mappings :: tableMappings where
  "person_mappings = [''person'' \<mapsto> ''read_json('person.json')'']"

text \<open>
  The signed 64-bit count whose high and low 32-bit halves are the two given 32-bit
  values, in the words of the specification.
\<close>

definition nanos64 :: "int \<Rightarrow> int \<Rightarrow> int" where
  "nanos64 hi lo =
     (let u = (hi mod 4294967296) * 4294967296 + lo mod 4294967296
      in if u \<ge> 9223372036854775808 then u - 18446744073709551616 else u)"

text \<open>
  The timestamp strings of the form \<open>YYYY-MM-DD HH:mm:ss\<close> (the separator a space or a
  \<open>T\<close>), an optional fraction \<open>.sss\<close> and an optional offset \<open>+HH:mm\<close> or \<open>-HH:mm\<close>, written
  from their fields; the fields that make a calendar date and a time of day; and the
  time value of the fields taken as UTC.
\<close>

definition two_digits :: "nat \<Rightarrow> string" where
  "two_digits n = [dec_char (n div 10), dec_char n]"

definition three_digits :: "nat \<Rightarrow> string" where
  "three_digits n = [dec_char (n div 100), dec_char (n div 10), dec_char n]"

definition four_digits :: "nat \<Rightarrow> string" where
  "four_digits n = [dec_char (n div 1000), dec_char (n div 100), dec_char (n div 10), dec_char n]"


definition fraction_text :: "nat option \<Rightarrow> string" where
  "fraction_text ms = (case ms of None \<Rightarrow> [] | Some m \<Rightarrow> ''.'' @ three_digits m)"

definition offset_text :: "bool \<Rightarrow> nat \<Rightarrow> nat \<Rightarrow> string" where
  "offset_text west oh om =
     (if west then ''-'' else ''+'') @ two_digits oh @ '':'' @ two_digits om"

text \<open>
  Two other ways to write an offset: the hours alone, \<open>+HH\<close> or \<open>-HH\<close>, and hours and minutes
  without the colon, \<open>+HHmm\<close> or \<open>-HHmm\<close>.
\<close>

definition hour_offset_text :: "bool \<Rightarrow> nat \<Rightarrow> string" where
  "hour_offset_text west oh = (if west then ''-'' else ''+'') @ two_digits oh"

definition compact_offset_text :: "bool \<Rightarrow> nat \<Rightarrow> nat \<Rightarrow> string" where
  "compact_offset_text west oh om =
     (if west then ''-'' else ''+'') @ two_digits oh @ two_digits om"



section \<open>Digits\<close>

lemma digit_table: "k < 10 \<Longrightarrow> is_digit (''0123456789'' ! k) \<and> digit_val (''0123456789'' ! k) = k"
proof -
  assume "k < 10"
  then have "k \<in> {0, 1, 2, 3, 4, 5, 6, 7, 8, 9}" by auto
  then show ?thesis by (auto simp: is_digit_def digit_val_def)
qed

lemma dec_char_digit [simp]: "is_digit (dec_char n)" "digit_val (dec_char n) = n mod 10"
  using digit_table [of "n mod 10"] by (simp_all add: dec_char_def)

lemma is_digit_plain:
  "is_digit c \<Longrightarrow> c \<noteq> CHR '' '' \<and> c \<noteq> CHR ''Z'' \<and> c \<noteq> CHR ''T'' \<and> c \<noteq> CHR ''-''
     \<and> c \<noteq> CHR ''+'' \<and> c \<noteq> CHR '':'' \<and> c \<noteq> CHR ''.''"
  by (auto simp: is_digit_def)

lemma dec_char_plain [simp]:
  "dec_char n \<noteq> CHR '' ''" "dec_char n \<noteq> CHR ''Z''" "dec_char n \<noteq> CHR ''T''"
  "dec_char n \<noteq> CHR ''-''" "dec_char n \<noteq> CHR ''+''" "dec_char n \<noteq> CHR '':''"
  "dec_char n \<noteq> CHR ''.''"
  using is_digit_plain [of "dec_char n"] by simp_all

lemma dec_char_plain_sym [simp]:
  "CHR '' '' \<noteq> dec_char n" "CHR ''Z'' \<noteq> dec_char n" "CHR ''T'' \<noteq> dec_char n"
  "CHR ''-'' \<noteq> dec_char n" "CHR ''+'' \<noteq> dec_char n" "CHR '':'' \<noteq> dec_char n"
  "CHR ''.'' \<noteq> dec_char n"
  by (rule dec_char_plain [THEN not_sym])+

section \<open>Bit strings\<close>

lemma bin_of_nat_chars: "set (bin_of_nat n) \<subseteq> {CHR ''0'', CHR ''1''}"
proof (induction n rule: bin_of_nat.induct)
  case (1 n)
  show ?case
  proof (cases "n < 2")
    case True
    then show ?thesis by (subst bin_of_nat.simps) (simp add: bit_char_def)
  next
    case False
    with 1 show ?thesis by (subst bin_of_nat.simps) (auto simp: bit_char_def)
  qed
qed

lemma bin_of_nat_length: "0 < k \<Longrightarrow> n < 2 ^ k \<Longrightarrow> length (bin_of_nat n) \<le> k"
proof (induction k arbitrary: n)
  case 0
  then show ?case by simp
next
  case (Suc k)
  show ?case
  proof (cases "n < 2")
    case True
    then show ?thesis by (subst bin_of_nat.simps) simp
  next
    case False
    with Suc.prems have k: "0 < k" by (cases k) auto
    from Suc.prems have "n div 2 < 2 ^ k" by auto
    with Suc.IH k have "length (bin_of_nat (n div 2)) \<le> k" by blast
    with False show ?thesis by (subst bin_of_nat.simps) simp
  qed
qed

lemma byte_bits_length: "0 \<le> b \<Longrightarrow> b < 256 \<Longrightarrow> length (byte_bits b) = 8"
proof -
  assume b: "0 \<le> b" "b < 256"
  then have "nat b < 2 ^ 8" by simp
  then have "length (bin_of_nat (nat b)) \<le> 8" by (intro bin_of_nat_length) simp_all
  with b show ?thesis by (simp add: byte_bits_def pad_start_def toString2_def)
qed

lemma byte_bits_chars: "0 \<le> b \<Longrightarrow> set (byte_bits b) \<subseteq> {CHR ''0'', CHR ''1''}"
  using bin_of_nat_chars [of "nat b"]
  by (auto simp: byte_bits_def pad_start_def toString2_def)

lemma bits_of_bytes_length:
  "\<forall>b \<in> set bytes. 0 \<le> b \<and> b < 256 \<Longrightarrow> length (bits_of_bytes bytes) = 8 * length bytes"
  by (induction bytes) (simp_all add: bits_of_bytes_def byte_bits_length)

lemma bits_of_bytes_chars:
  "\<forall>b \<in> set bytes. 0 \<le> b \<and> b < 256 \<Longrightarrow> set (bits_of_bytes bytes) \<subseteq> {CHR ''0'', CHR ''1''}"
proof (induction bytes)
  case Nil
  then show ?case by (simp add: bits_of_bytes_def)
next
  case (Cons b bs)
  then have "set (byte_bits b) \<subseteq> {CHR ''0'', CHR ''1''}" by (simp add: byte_bits_chars)
  moreover from Cons have "set (bits_of_bytes bs) \<subseteq> {CHR ''0'', CHR ''1''}" by simp
  ultimately show ?case by (simp add: bits_of_bytes_def)
qed

lemma index_of_None: "index_of pat s = None \<longleftrightarrow> \<not> sublist pat s"
  by (induction s) (auto simp: sublist_Cons_right)

lemma index_of_Some: "index_of pat s = Some i \<Longrightarrow> take (length pat) (drop i s) = pat"
proof (induction s arbitrary: i)
  case Nil
  then show ?case by (simp split: if_splits)
next
  case (Cons c cs)
  show ?case
  proof (cases "prefix pat (c # cs)")
    case True
    with Cons.prems have "i = 0" by simp
    with True show ?thesis by (auto simp: prefix_def)
  next
    case False
    with Cons.prems obtain j where "index_of pat cs = Some j" "i = Suc j" by auto
    with Cons.IH show ?thesis by simp
  qed
qed

lemma strip_leading_zeros_nonempty: "strip_leading_zeros s \<noteq> []"
  by (simp add: strip_leading_zeros_def Let_def)

lemma strip_all_zero: "\<forall>c \<in> set s. c = CHR ''0'' \<Longrightarrow> strip_leading_zeros s = ''0''"
  by (simp add: strip_leading_zeros_def Let_def)

lemma dropWhile_zeros:
  "\<exists>c \<in> set s. c \<noteq> CHR ''0'' \<Longrightarrow>
     \<exists>k. s = replicate k (CHR ''0'') @ dropWhile (\<lambda>c. c = CHR ''0'') s
         \<and> hd (dropWhile (\<lambda>c. c = CHR ''0'') s) \<noteq> CHR ''0''"
proof (induction s)
  case Nil
  then show ?case by simp
next
  case (Cons c cs)
  show ?case
  proof (cases "c = CHR ''0''")
    case True
    with Cons.prems have "\<exists>c \<in> set cs. c \<noteq> CHR ''0''" by simp
    from Cons.IH [OF this] obtain k where
      k: "cs = replicate k (CHR ''0'') @ dropWhile (\<lambda>c. c = CHR ''0'') cs"
      and h: "hd (dropWhile (\<lambda>c. c = CHR ''0'') cs) \<noteq> CHR ''0''" by blast
    from k have "c # cs = replicate (Suc k) (CHR ''0'') @ dropWhile (\<lambda>c. c = CHR ''0'') cs"
      using True by simp
    with h True show ?thesis by (intro exI [of _ "Suc k"]) simp
  next
    case False
    then show ?thesis by (intro exI [of _ 0]) simp
  qed
qed

lemma strip_some_one:
  assumes "\<exists>c \<in> set s. c \<noteq> CHR ''0''"
  shows "\<exists>k. s = replicate k (CHR ''0'') @ strip_leading_zeros s
             \<and> hd (strip_leading_zeros s) \<noteq> CHR ''0''"
proof -
  from assms have "dropWhile (\<lambda>c. c = CHR ''0'') s \<noteq> []" by auto
  then have "strip_leading_zeros s = dropWhile (\<lambda>c. c = CHR ''0'') s"
    by (simp only: strip_leading_zeros_def Let_def if_False)
  with dropWhile_zeros [OF assms] show ?thesis by simp
qed

lemma dec_val_snoc: "dec_val (ds @ [c]) = dec_val ds * 10 + digit_val c"
  by (simp add: dec_val_def)

lemma dec_of_nat_digits: "dec_of_nat n \<noteq> [] \<and> (\<forall>c \<in> set (dec_of_nat n). is_digit c)"
proof (induction n rule: dec_of_nat.induct)
  case (1 n)
  show ?case
  proof (cases "n < 10")
    case True
    then show ?thesis by (subst dec_of_nat.simps, subst dec_of_nat.simps) simp
  next
    case False
    with 1 show ?thesis by (subst dec_of_nat.simps, subst dec_of_nat.simps) simp
  qed
qed

lemma dec_val_dec_of_nat: "dec_val (dec_of_nat n) = n"
proof (induction n rule: dec_of_nat.induct)
  case (1 n)
  show ?case
  proof (cases "n < 10")
    case True
    then show ?thesis by (subst dec_of_nat.simps) (simp add: dec_val_def)
  next
    case False
    with 1 have "dec_val (dec_of_nat (n div 10)) = n div 10" by simp
    with False show ?thesis by (subst dec_of_nat.simps) (simp add: dec_val_snoc)
  qed
qed

lemma space_not_digit: "is_space c \<Longrightarrow> \<not> is_digit c"
  by (auto simp: is_space_def is_digit_def)

lemma match_needs_paren: "match_bit_width s = Some ds \<Longrightarrow> CHR ''('' \<in> set s"
proof -
  assume m: "match_bit_width s = Some ds"
  then obtain b i t r where s: "s = b # i # t # r"
    by (auto simp: match_bit_width_def split: list.splits)
  from m s obtain r1 where "dropWhile is_space r = CHR ''('' # r1"
    by (auto simp: match_bit_width_def split: list.splits if_splits)
  then have "CHR ''('' \<in> set (dropWhile is_space r)" by simp
  then have "CHR ''('' \<in> set r" by (rule set_dropWhileD)
  with s show ?thesis by simp
qed

lemma search_needs_paren: "CHR ''('' \<notin> set v \<Longrightarrow> search_bit_width v = None"
proof (induction v)
  case Nil
  then show ?case by simp
next
  case (Cons c cs)
  then have "match_bit_width (c # cs) = None"
    using match_needs_paren [of "c # cs"] by (cases "match_bit_width (c # cs)") auto
  with Cons show ?case by simp
qed

lemma plain_hints_declare_nothing:
  "\<forall>k \<in> set ks. plain_hint (md_get f k) \<Longrightarrow> declared_bit_length ks f = None"
  by (induction ks) (auto simp: plain_hint_def search_needs_paren split: option.splits)

lemma dropWhile_spaces:
  "\<forall>c \<in> set ws. is_space c \<Longrightarrow> \<not> is_space x \<Longrightarrow> dropWhile is_space (ws @ x # r) = x # r"
  by (induction ws) auto

lemma match_bit_width_hint:
  assumes "b = CHR ''b'' \<or> b = CHR ''B''" "i = CHR ''i'' \<or> i = CHR ''I''"
    "t = CHR ''t'' \<or> t = CHR ''T''"
    "\<forall>c \<in> set ws1. is_space c" "\<forall>c \<in> set ws2. is_space c" "\<forall>c \<in> set ws3. is_space c"
  shows "match_bit_width ([b, i, t] @ ws1 @ ''('' @ ws2 @ dec_of_nat n @ ws3 @ '')'' @ post)
           = Some (dec_of_nat n)"
proof -
  let ?ds = "dec_of_nat n"
  let ?tail = "ws3 @ CHR '')'' # post"
  have d: "?ds \<noteq> []" "\<forall>c \<in> set ?ds. is_digit c" using dec_of_nat_digits [of n] by simp_all
  have p1: "\<not> is_space (CHR ''('')" "\<not> is_space (CHR '')'')" "\<not> is_digit (CHR '')'')"
    by (simp_all add: is_space_def is_digit_def)
  have s1: "dropWhile is_space (ws1 @ CHR ''('' # ws2 @ ?ds @ ?tail)
              = CHR ''('' # ws2 @ ?ds @ ?tail"
    using assms(4) p1(1) by (rule dropWhile_spaces)
  obtain d0 dr where dd: "?ds = d0 # dr" using d(1) by (cases ?ds) auto
  with d(2) have nd: "\<not> is_space d0" using space_not_digit by auto
  have s2: "dropWhile is_space (ws2 @ ?ds @ ?tail) = ?ds @ ?tail"
    unfolding dd using dropWhile_spaces [OF assms(5) nd, of "dr @ ?tail"] by simp
  have hd_tail: "?tail \<noteq> [] \<and> \<not> is_digit (hd ?tail)"
    using assms(6) p1(3) space_not_digit by (cases ws3) auto
  then have tw0: "takeWhile is_digit ?tail = []" by (cases ?tail) auto
  have dw0: "dropWhile is_digit ?tail = ?tail" using hd_tail by (cases ?tail) auto
  have tw: "takeWhile is_digit (?ds @ ?tail) = ?ds"
    using d(2) tw0 by (simp add: takeWhile_append2)
  have dw: "dropWhile is_digit (?ds @ ?tail) = ?tail"
    using d(2) dw0 by (simp add: dropWhile_append2)
  have s3: "dropWhile is_space ?tail = CHR '')'' # post"
    using assms(6) p1(2) by (rule dropWhile_spaces)
  have e: "eq_ci (CHR ''b'') (CHR ''B'') b" "eq_ci (CHR ''i'') (CHR ''I'') i"
    "eq_ci (CHR ''t'') (CHR ''T'') t"
    using assms(1-3) by (auto simp: eq_ci_def)
  have "match_bit_width (b # i # t # ws1 @ CHR ''('' # ws2 @ ?ds @ ?tail) = Some ?ds"
    unfolding match_bit_width_def Let_def list.case s1 s2 tw dw s3
    using e d(1) by simp
  then show ?thesis by simp
qed

lemma match_needs_b: "c \<noteq> CHR ''b'' \<Longrightarrow> c \<noteq> CHR ''B'' \<Longrightarrow> match_bit_width (c # r) = None"
  by (simp add: match_bit_width_def eq_ci_def split: list.splits)

lemma search_skips_prefix:
  "CHR ''b'' \<notin> set pre \<Longrightarrow> CHR ''B'' \<notin> set pre \<Longrightarrow>
     search_bit_width (pre @ s) = search_bit_width s"
  by (induction pre) (auto simp: match_needs_b)

lemma search_bit_width_hint:
  assumes "CHR ''b'' \<notin> set pre" "CHR ''B'' \<notin> set pre"
    "b = CHR ''b'' \<or> b = CHR ''B''" "i = CHR ''i'' \<or> i = CHR ''I''"
    "t = CHR ''t'' \<or> t = CHR ''T''"
    "\<forall>c \<in> set ws1. is_space c" "\<forall>c \<in> set ws2. is_space c" "\<forall>c \<in> set ws3. is_space c"
  shows "search_bit_width (pre @ [b, i, t] @ ws1 @ ''('' @ ws2 @ dec_of_nat n @ ws3 @ '')'' @ post)
           = Some (dec_of_nat n)"
proof -
  have "search_bit_width ([b, i, t] @ ws1 @ ''('' @ ws2 @ dec_of_nat n @ ws3 @ '')'' @ post)
          = Some (dec_of_nat n)"
    using match_bit_width_hint [OF assms(3-8), of n post] by simp
  then show ?thesis using search_skips_prefix [OF assms(1,2)] by simp
qed

lemma declared_bit_length_hint:
  assumes "\<forall>k' \<in> set ks1. plain_hint (md_get f k')"
    and "md_get f k = Some v" and "search_bit_width v = Some (dec_of_nat n)" and "0 < n"
  shows "declared_bit_length (ks1 @ k # ks2) f = Some n"
  using assms(1)
proof (induction ks1)
  case Nil
  from assms(2-4) show ?case by (simp add: dec_val_dec_of_nat)
next
  case (Cons a ks1)
  then have "plain_hint (md_get f a)" by simp
  then have "md_get f a = None \<or> (\<exists>w. md_get f a = Some w \<and> search_bit_width w = None)"
    by (auto simp: plain_hint_def search_needs_paren split: option.splits)
  with Cons show ?case by auto
qed


lemma dec_val_leading_zeros:
  "\<forall>c \<in> set zs. c = CHR ''0'' \<Longrightarrow> dec_val (zs @ ds) = dec_val ds"
proof -
  assume z: "\<forall>c \<in> set zs. c = CHR ''0''"
  then have "foldl (\<lambda>acc c. acc * 10 + digit_val c) 0 zs = 0"
    by (induction zs rule: rev_induct) (simp_all add: digit_val_def)
  then show ?thesis by (simp add: dec_val_def)
qed

text \<open>
  C3, as the code has it.  For bytes in the range of a \<open>Uint8Array\<close>, every byte expands
  to exactly eight binary digits, which are concatenated.  The metadata hints are read in
  the order \<open>duckdb.logicalType\<close>, \<open>duckdb_type\<close>, \<open>logicalType\<close>, \<open>duckdb.logical_type\<close>.
  When the first hint that has an opening parenthesis reads \<open>BIT(n)\<close> with \<open>n > 0\<close>, in
  any letter case, with optional white space before the parenthesis and around the
  decimal numeral of \<open>n\<close>, after a prefix without the letter \<open>b\<close> and before any suffix,
  the result is the last \<open>n\<close> characters of the expansion.  When no hint has an opening
  parenthesis, an expansion that contains \<open>010101\<close> renders as \<open>010101\<close>; any other
  expansion renders with its leading \<open>0\<close> characters removed, never empty: all zeros
  render as \<open>0\<close>, and otherwise the result starts with \<open>1\<close>.  The last two conjuncts
  state the same three cases for every field in terms of the width that the scan of the
  metadata finds.
\<close>

theorem toBitStringFromBytes_rendering:
  assumes "\<forall>b \<in> set bytes. 0 \<le> b \<and> b < 256"
  shows "length (bits_of_bytes bytes) = 8 * length bytes
     \<and> set (bits_of_bytes bytes) \<subseteq> {CHR ''0'', CHR ''1''}
     \<and> (\<forall>ks1 k ks2 pre b i t ws1 ws2 ws3 n post.
           metadata_keys = ks1 @ k # ks2
           \<and> (\<forall>k' \<in> set ks1. plain_hint (md_get f k'))
           \<and> md_get f k
               = Some (pre @ [b, i, t] @ ws1 @ ''('' @ ws2 @ dec_of_nat n @ ws3 @ '')'' @ post)
           \<and> CHR ''b'' \<notin> set pre \<and> CHR ''B'' \<notin> set pre
           \<and> (b = CHR ''b'' \<or> b = CHR ''B'') \<and> (i = CHR ''i'' \<or> i = CHR ''I'')
           \<and> (t = CHR ''t'' \<or> t = CHR ''T'')
           \<and> (\<forall>c \<in> set (ws1 @ ws2 @ ws3). is_space c) \<and> 0 < n \<longrightarrow>
           toBitStringFromBytes bytes f = drop (8 * length bytes - n) (bits_of_bytes bytes))
     \<and> ((\<forall>k \<in> set metadata_keys. plain_hint (md_get f k))
           \<and> sublist ''010101'' (bits_of_bytes bytes) \<longrightarrow>
           toBitStringFromBytes bytes f = ''010101'')
     \<and> ((\<forall>k \<in> set metadata_keys. plain_hint (md_get f k))
           \<and> \<not> sublist ''010101'' (bits_of_bytes bytes) \<longrightarrow>
           toBitStringFromBytes bytes f = strip_leading_zeros (bits_of_bytes bytes)
           \<and> toBitStringFromBytes bytes f \<noteq> []
           \<and> ((\<forall>c \<in> set (bits_of_bytes bytes). c = CHR ''0'') \<longrightarrow>
                  toBitStringFromBytes bytes f = ''0'')
           \<and> ((\<exists>c \<in> set (bits_of_bytes bytes). c \<noteq> CHR ''0'') \<longrightarrow>
                  hd (toBitStringFromBytes bytes f) = CHR ''1''
                  \<and> (\<exists>k. bits_of_bytes bytes
                          = replicate k (CHR ''0'') @ toBitStringFromBytes bytes f)))
     \<and> (\<forall>n. declared_bit_length metadata_keys f = Some n \<longrightarrow>
           toBitStringFromBytes bytes f = drop (8 * length bytes - n) (bits_of_bytes bytes))
     \<and> (declared_bit_length metadata_keys f = None \<longrightarrow>
           toBitStringFromBytes bytes f
             = (if sublist ''010101'' (bits_of_bytes bytes) then ''010101''
                else strip_leading_zeros (bits_of_bytes bytes)))"
proof -
  let ?bits = "bits_of_bytes bytes"
  let ?plain = "\<forall>k \<in> set metadata_keys. plain_hint (md_get f k)"
  have len: "length ?bits = 8 * length bytes"
    using assms by (rule bits_of_bytes_length)
  have chars: "set ?bits \<subseteq> {CHR ''0'', CHR ''1''}"
    using assms by (rule bits_of_bytes_chars)
  have width: "toBitStringFromBytes bytes f = drop (8 * length bytes - n) ?bits"
    if "declared_bit_length metadata_keys f = Some n" for n
    using that len by (simp add: toBitStringFromBytes_def slice_last_def)
  have pat: "toBitStringFromBytes bytes f = ''010101''"
    if "declared_bit_length metadata_keys f = None" "sublist ''010101'' ?bits"
  proof -
    from that(2) obtain i where i: "index_of ''010101'' ?bits = Some i"
      using index_of_None by (cases "index_of ''010101'' ?bits") auto
    have l6: "length ''010101'' = 6" by simp
    have "take 6 (drop i ?bits) = ''010101''"
      using index_of_Some [OF i] unfolding l6 .
    with that(1) i show ?thesis by (simp add: toBitStringFromBytes_def)
  qed
  have strip: "toBitStringFromBytes bytes f = strip_leading_zeros ?bits"
    if "declared_bit_length metadata_keys f = None" "\<not> sublist ''010101'' ?bits"
    using that by (simp add: toBitStringFromBytes_def index_of_None [symmetric])
  have one: "hd (strip_leading_zeros ?bits) = CHR ''1''
             \<and> (\<exists>k. ?bits = replicate k (CHR ''0'') @ strip_leading_zeros ?bits)"
    if ex: "\<exists>c \<in> set ?bits. c \<noteq> CHR ''0''"
  proof -
    from strip_some_one [OF ex] obtain k where
      k: "?bits = replicate k (CHR ''0'') @ strip_leading_zeros ?bits"
      and h: "hd (strip_leading_zeros ?bits) \<noteq> CHR ''0''" by blast
    have "strip_leading_zeros ?bits \<noteq> []" by (rule strip_leading_zeros_nonempty)
    then have "hd (strip_leading_zeros ?bits) \<in> set (strip_leading_zeros ?bits)" by simp
    also have "set (strip_leading_zeros ?bits) \<subseteq> set ?bits"
      by (subst (2) k) simp
    finally have "hd (strip_leading_zeros ?bits) \<in> {CHR ''0'', CHR ''1''}"
      using chars by blast
    with h k show ?thesis by blast
  qed
  have none: "declared_bit_length metadata_keys f = None" if ?plain
    using that by (rule plain_hints_declare_nothing)
  have A: "\<forall>ks1 k ks2 pre b i t ws1 ws2 ws3 n post.
           metadata_keys = ks1 @ k # ks2
           \<and> (\<forall>k' \<in> set ks1. plain_hint (md_get f k'))
           \<and> md_get f k
               = Some (pre @ [b, i, t] @ ws1 @ ''('' @ ws2 @ dec_of_nat n @ ws3 @ '')'' @ post)
           \<and> CHR ''b'' \<notin> set pre \<and> CHR ''B'' \<notin> set pre
           \<and> (b = CHR ''b'' \<or> b = CHR ''B'') \<and> (i = CHR ''i'' \<or> i = CHR ''I'')
           \<and> (t = CHR ''t'' \<or> t = CHR ''T'')
           \<and> (\<forall>c \<in> set (ws1 @ ws2 @ ws3). is_space c) \<and> 0 < n \<longrightarrow>
           toBitStringFromBytes bytes f = drop (8 * length bytes - n) ?bits"
  proof (intro allI impI)
    fix ks1 k ks2 pre b i t ws1 ws2 ws3 n post
    let ?v = "pre @ [b, i, t] @ ws1 @ ''('' @ ws2 @ dec_of_nat n @ ws3 @ '')'' @ post"
    assume a: "metadata_keys = ks1 @ k # ks2
           \<and> (\<forall>k' \<in> set ks1. plain_hint (md_get f k'))
           \<and> md_get f k = Some ?v
           \<and> CHR ''b'' \<notin> set pre \<and> CHR ''B'' \<notin> set pre
           \<and> (b = CHR ''b'' \<or> b = CHR ''B'') \<and> (i = CHR ''i'' \<or> i = CHR ''I'')
           \<and> (t = CHR ''t'' \<or> t = CHR ''T'')
           \<and> (\<forall>c \<in> set (ws1 @ ws2 @ ws3). is_space c) \<and> 0 < n"
    then have ws: "\<forall>c \<in> set ws1. is_space c" "\<forall>c \<in> set ws2. is_space c"
      "\<forall>c \<in> set ws3. is_space c" by auto
    from a have s: "search_bit_width ?v = Some (dec_of_nat n)"
      by (intro search_bit_width_hint ws) blast+
    from a have "declared_bit_length (ks1 @ k # ks2) f = Some n"
      by (intro declared_bit_length_hint [OF _ _ s]) blast+
    with a have "declared_bit_length metadata_keys f = Some n" by simp
    then show "toBitStringFromBytes bytes f = drop (8 * length bytes - n) ?bits"
      by (rule width)
  qed
  have B: "?plain \<and> sublist ''010101'' ?bits \<longrightarrow> toBitStringFromBytes bytes f = ''010101''"
  proof
    assume a: "?plain \<and> sublist ''010101'' ?bits"
    then have "declared_bit_length metadata_keys f = None" by (intro none) simp
    with a show "toBitStringFromBytes bytes f = ''010101''" by (intro pat) simp_all
  qed
  have C: "?plain \<and> \<not> sublist ''010101'' ?bits \<longrightarrow>
           toBitStringFromBytes bytes f = strip_leading_zeros ?bits
           \<and> toBitStringFromBytes bytes f \<noteq> []
           \<and> ((\<forall>c \<in> set ?bits. c = CHR ''0'') \<longrightarrow> toBitStringFromBytes bytes f = ''0'')
           \<and> ((\<exists>c \<in> set ?bits. c \<noteq> CHR ''0'') \<longrightarrow>
                  hd (toBitStringFromBytes bytes f) = CHR ''1''
                  \<and> (\<exists>k. ?bits = replicate k (CHR ''0'') @ toBitStringFromBytes bytes f))"
  proof
    assume a: "?plain \<and> \<not> sublist ''010101'' ?bits"
    then have "declared_bit_length metadata_keys f = None" by (intro none) simp
    with a have eq: "toBitStringFromBytes bytes f = strip_leading_zeros ?bits"
      by (intro strip) simp_all
    show "toBitStringFromBytes bytes f = strip_leading_zeros ?bits
           \<and> toBitStringFromBytes bytes f \<noteq> []
           \<and> ((\<forall>c \<in> set ?bits. c = CHR ''0'') \<longrightarrow> toBitStringFromBytes bytes f = ''0'')
           \<and> ((\<exists>c \<in> set ?bits. c \<noteq> CHR ''0'') \<longrightarrow>
                  hd (toBitStringFromBytes bytes f) = CHR ''1''
                  \<and> (\<exists>k. ?bits = replicate k (CHR ''0'') @ toBitStringFromBytes bytes f))"
      unfolding eq
      using one strip_leading_zeros_nonempty [of ?bits] strip_all_zero [of ?bits]
      by blast
  qed
  have D: "\<forall>n. declared_bit_length metadata_keys f = Some n \<longrightarrow>
           toBitStringFromBytes bytes f = drop (8 * length bytes - n) ?bits"
    using width by blast
  have E: "declared_bit_length metadata_keys f = None \<longrightarrow>
           toBitStringFromBytes bytes f
             = (if sublist ''010101'' ?bits then ''010101'' else strip_leading_zeros ?bits)"
    using pat strip by simp
  from len chars A B C D E show ?thesis by (intro conjI)
qed

theorem toBitStringFromBytes_rendering_witness:
  "toBitStringFromBytes [0, 10]
      (Field ''b'' T_FixedSizeBinary [] NoUnit [(''duckdb_type'', ''BIT(6)'')]) = ''001010''
   \<and> toBitStringFromBytes [0, 10]
      (Field ''b'' T_FixedSizeBinary [] NoUnit [(''logicalType'', ''varchar bit ( 12 )'')])
        = ''000000001010''
   \<and> toBitStringFromBytes [85] (Field ''b'' T_FixedSizeBinary [] NoUnit []) = ''010101''
   \<and> toBitStringFromBytes [0, 10] (Field ''b'' T_FixedSizeBinary [] NoUnit [(''duckdb_type'', ''BIT'')])
        = ''1010''
   \<and> toBitStringFromBytes [0, 0] (Field ''b'' T_FixedSizeBinary [] NoUnit []) = ''0''"
proof -
  let ?w = "Field ''b'' T_FixedSizeBinary [] NoUnit [(''duckdb_type'', ''BIT(6)'')]"
  let ?v = "Field ''b'' T_FixedSizeBinary [] NoUnit [(''logicalType'', ''varchar bit ( 12 )'')]"
  let ?g = "Field ''b'' T_FixedSizeBinary [] NoUnit [(''duckdb_type'', ''BIT'')]"
  let ?f = "Field ''b'' T_FixedSizeBinary [] NoUnit []"
  have b1: "\<forall>b \<in> set [0, 10 :: int]. 0 \<le> b \<and> b < 256" by simp
  have b2: "\<forall>b \<in> set [85 :: int]. 0 \<le> b \<and> b < 256" by simp
  have b3: "\<forall>b \<in> set [0, 0 :: int]. 0 \<le> b \<and> b < 256" by simp
  have k1: "metadata_keys = [''duckdb.logicalType''] @ ''duckdb_type'' # [''logicalType'', ''duckdb.logical_type'']"
    by (simp add: metadata_keys_def)
  have k2: "metadata_keys = [''duckdb.logicalType'', ''duckdb_type''] @ ''logicalType'' # [''duckdb.logical_type'']"
    by (simp add: metadata_keys_def)
  have p1: "\<forall>k' \<in> set [''duckdb.logicalType'']. plain_hint (md_get ?w k')"
    by (simp add: plain_hint_def md_get_def)
  have p2: "\<forall>k' \<in> set [''duckdb.logicalType'', ''duckdb_type'']. plain_hint (md_get ?v k')"
    by (simp add: plain_hint_def md_get_def)
  have h1: "md_get ?w ''duckdb_type''
              = Some ([] @ [CHR ''B'', CHR ''I'', CHR ''T''] @ [] @ ''('' @ [] @ dec_of_nat 6 @ [] @ '')'' @ [])"
    by code_simp
  have h2: "md_get ?v ''logicalType''
              = Some (''varchar '' @ [CHR ''b'', CHR ''i'', CHR ''t''] @ '' '' @ ''('' @ '' '' @ dec_of_nat 12
                       @ '' '' @ '')'' @ [])"
    by code_simp
  have sp: "\<forall>c \<in> set ('' '' @ '' '' @ '' ''). is_space c" by (simp add: is_space_def)
  have nb: "CHR ''b'' \<notin> set ''varchar ''" "CHR ''B'' \<notin> set ''varchar ''" by simp_all
  have pf: "\<forall>k \<in> set metadata_keys. plain_hint (md_get ?f k)"
    by (simp add: plain_hint_def md_get_def metadata_keys_def)
  have pg: "\<forall>k \<in> set metadata_keys. plain_hint (md_get ?g k)"
    by (simp add: plain_hint_def md_get_def metadata_keys_def)
  have e1: "drop (8 * length [0, 10 :: int] - 6) (bits_of_bytes [0, 10]) = ''001010''"
    by code_simp
  have e2: "drop (8 * length [0, 10 :: int] - 12) (bits_of_bytes [0, 10]) = ''000000001010''"
    by code_simp
  have s2: "sublist ''010101'' (bits_of_bytes [85])"
  proof -
    have "index_of ''010101'' (bits_of_bytes [85]) \<noteq> None" by code_simp
    then show ?thesis by (simp add: index_of_None)
  qed
  have s3: "\<not> sublist ''010101'' (bits_of_bytes [0, 10])"
  proof -
    have "index_of ''010101'' (bits_of_bytes [0, 10]) = None" by code_simp
    then show ?thesis by (simp add: index_of_None)
  qed
  have s4: "\<not> sublist ''010101'' (bits_of_bytes [0, 0])"
  proof -
    have "index_of ''010101'' (bits_of_bytes [0, 0]) = None" by code_simp
    then show ?thesis by (simp add: index_of_None)
  qed
  have e3: "strip_leading_zeros (bits_of_bytes [0, 10]) = ''1010''" by code_simp
  have e4: "strip_leading_zeros (bits_of_bytes [0, 0]) = ''0''" by code_simp
  note w1 = toBitStringFromBytes_rendering [OF b1, of ?w, THEN conjunct2, THEN conjunct2, THEN conjunct1,
      rule_format, where ?ks1.0 = "[''duckdb.logicalType'']" and k = "''duckdb_type''"
        and ?ks2.0 = "[''logicalType'', ''duckdb.logical_type'']" and pre = "[]"
        and b = "CHR ''B''" and i = "CHR ''I''" and t = "CHR ''T''"
        and ?ws1.0 = "[]" and ?ws2.0 = "[]" and ?ws3.0 = "[]" and n = 6 and post = "[]"]
  note w2 = toBitStringFromBytes_rendering [OF b1, of ?v, THEN conjunct2, THEN conjunct2, THEN conjunct1,
      rule_format, where ?ks1.0 = "[''duckdb.logicalType'', ''duckdb_type'']"
        and k = "''logicalType''" and ?ks2.0 = "[''duckdb.logical_type'']"
        and pre = "''varchar ''" and b = "CHR ''b''" and i = "CHR ''i''" and t = "CHR ''t''"
        and ?ws1.0 = "'' ''" and ?ws2.0 = "'' ''" and ?ws3.0 = "'' ''" and n = 12
        and post = "[]"]
  have "toBitStringFromBytes [0, 10] ?w = drop (8 * length [0, 10 :: int] - 6) (bits_of_bytes [0, 10])"
    using k1 p1 h1 by (intro w1 conjI) simp_all
  with e1 have r1: "toBitStringFromBytes [0, 10] ?w = ''001010''" by simp
  have "toBitStringFromBytes [0, 10] ?v = drop (8 * length [0, 10 :: int] - 12) (bits_of_bytes [0, 10])"
    using k2 p2 h2 sp nb by (intro w2 conjI) simp_all
  with e2 have r2: "toBitStringFromBytes [0, 10] ?v = ''000000001010''" by simp
  have r3: "toBitStringFromBytes [85] ?f = ''010101''"
    using toBitStringFromBytes_rendering [OF b2, of ?f] pf s2 by blast
  have r4: "toBitStringFromBytes [0, 10] ?g = ''1010''"
    using toBitStringFromBytes_rendering [OF b1, of ?g] pg s3 e3 by simp
  have r5: "toBitStringFromBytes [0, 0] ?f = ''0''"
    using toBitStringFromBytes_rendering [OF b3, of ?f] pf s4 e4 by simp
  from r1 r2 r3 r4 r5 show ?thesis by (intro conjI)
qed

text \<open>
  C3 as the specification states it fails: a \<open>FixedSizeBinary\<close> value of the one byte
  \<open>0x55\<close> without a declared width expands to \<open>01010101\<close>, which is converted to
  \<open>010101\<close> and not to \<open>1010101\<close>.
\<close>

theorem bit_rendering_counterexample:
  "convertArrowValue plain_host (JTyped Uint8 [85]) (Field ''b'' T_FixedSizeBinary [] NoUnit [])
     = JStr ''010101''
   \<and> spec_bit_rendering [85] (Field ''b'' T_FixedSizeBinary [] NoUnit []) = ''1010101''
   \<and> toBitStringFromBytes [85] (Field ''b'' T_FixedSizeBinary [] NoUnit [])
     \<noteq> spec_bit_rendering [85] (Field ''b'' T_FixedSizeBinary [] NoUnit [])"
proof -
  let ?f = "Field ''b'' T_FixedSizeBinary [] NoUnit []"
  have t: "toBitStringFromBytes [85] ?f = ''010101''" by code_simp
  have s: "spec_bit_rendering [85] ?f = ''1010101''" by code_simp
  have "convertArrowValue plain_host (JTyped Uint8 [85]) ?f = JStr (toBitStringFromBytes [85] ?f)"
    by (subst convertArrowValue.simps) (simp add: is_nullish_def convert_fixed_binary_def)
  with t s show ?thesis by simp
qed

section \<open>Values of single fields\<close>

lemma convert_date_types:
  "typeId f \<in> {T_Date, T_DateDay, T_DateMillisecond} \<Longrightarrow> \<not> is_nullish v \<Longrightarrow>
     convertArrowValue h v f = toDateFromValue h v"
  by (subst convertArrowValue.simps) auto

lemma blob_unchanged:
  "typeId f \<in> {T_Binary, T_LargeBinary} \<Longrightarrow> \<not> isBitField f \<Longrightarrow> \<not> likelyBitByBytes bytes \<Longrightarrow>
     convertArrowValue h (JTyped Uint8 bytes) f = JTyped Uint8 bytes"
  by (subst convertArrowValue.simps)
     (auto simp: is_nullish_def convert_binary_def buffer_bytes_def)

text \<open>
  The two-byte heuristic accepts every pair of bytes whose first byte is below \<open>0x80\<close>:
  the expansion of such a byte starts with a zero.  A \<open>Binary\<close> field therefore never
  returns such a pair as bytes.
\<close>

lemma byte_bits_leading_zero:
  assumes "0 \<le> a" "a < 128"
  shows "\<exists>r. byte_bits a = CHR ''0'' # r"
proof -
  from assms have "nat a < 2 ^ 7" by simp
  then have l: "length (bin_of_nat (nat a)) \<le> 7" by (intro bin_of_nat_length) simp_all
  then obtain k where k: "8 - length (bin_of_nat (nat a)) = Suc k"
    by (cases "8 - length (bin_of_nat (nat a))") simp_all
  from assms show ?thesis
    by (simp add: byte_bits_def pad_start_def toString2_def k)
qed

lemma small_first_byte_is_bit_string:
  assumes "0 \<le> a" "a < 128" "0 \<le> b" "b < 256"
  shows "likelyBitByBytes [a, b]"
proof -
  from byte_bits_leading_zero [OF assms(1,2)] obtain r where r: "byte_bits a = CHR ''0'' # r"
    by blast
  have ca: "set (byte_bits a) \<subseteq> {CHR ''0'', CHR ''1''}" using assms(1) by (rule byte_bits_chars)
  have cb: "set (byte_bits b) \<subseteq> {CHR ''0'', CHR ''1''}" using assms(3) by (rule byte_bits_chars)
  have nb: "byte_bits b \<noteq> []" using byte_bits_length [OF assms(3,4)] by auto
  from ca r have cr: "set r \<subseteq> {CHR ''0'', CHR ''1''}" by simp
  have "zeros_then_bits (byte_bits a @ byte_bits b)"
    unfolding r using cr cb nb by (auto simp: zeros_then_bits_def)
  then show ?thesis by (simp add: likelyBitByBytes_def)
qed

lemma small_two_byte_blob_is_rendered:
  assumes "typeId f = T_Binary" "0 \<le> a" "a < 128" "0 \<le> b" "b < 256"
  shows "convertArrowValue h (JTyped Uint8 [a, b]) f = JStr (toBitStringFromBytes [a, b] f)"
  using assms(1) small_first_byte_is_bit_string [OF assms(2-5)]
  by (subst convertArrowValue.simps) (simp add: is_nullish_def convert_binary_def)

text \<open>
  C2 at the two-byte value \<open>0x00 0x0A\<close> of a \<open>Binary\<close> field without metadata: the field is
  not a bit field, but the two-byte heuristic accepts every expansion that starts with a
  zero, so the value is returned as the bit string \<open>1010\<close> and not as the two bytes.  The
  one-byte value \<open>0x00\<close> is returned as the one byte.
\<close>

theorem two_byte_blob_rendered_as_bits:
  "isBitField (Field ''b'' T_Binary [] NoUnit []) = False
   \<and> likelyBitByBytes [0, 10] = True
   \<and> convertArrowValue h (JTyped Uint8 [0, 10]) (Field ''b'' T_Binary [] NoUnit []) = JStr ''1010''
   \<and> convertArrowValue h (JTyped Uint8 [0]) (Field ''b'' T_Binary [] NoUnit []) = JTyped Uint8 [0]"
  by code_simp

text \<open>
  C8: a numeric date value (a number or a \<open>bigint\<close> with an integer value) whose
  absolute value is below \<open>10^7\<close> is a count of days since the epoch, so the instant is the
  value times 86,400,000 milliseconds; any other value is a count of milliseconds since
  the epoch, an instant of its own whenever it is within the range of time values.  The
  fields of the three date types are converted this way.
\<close>

theorem toDateFromValue_numeric:
  "(\<bar>n\<bar> < 10000000 \<longrightarrow>
      toDateFromValue h (JNum n) = JDate (At (n * 86400000))
      \<and> toDateFromValue h (JBigInt n) = JDate (At (n * 86400000)))
   \<and> (10000000 \<le> \<bar>n\<bar> \<longrightarrow>
      toDateFromValue h (JNum n) = JDate (TimeClip n)
      \<and> toDateFromValue h (JBigInt n) = JDate (TimeClip n))
   \<and> (10000000 \<le> \<bar>n\<bar> \<and> \<bar>n\<bar> \<le> 8640000000000000 \<longrightarrow>
      toDateFromValue h (JNum n) = JDate (At n))
   \<and> (typeId f \<in> {T_Date, T_DateDay, T_DateMillisecond} \<longrightarrow>
      convertArrowValue h (JNum n) f = toDateFromValue h (JNum n))"
proof -
  have day: "TimeClip (n * 86400000) = At (n * 86400000)" if "\<bar>n\<bar> < 10000000"
    using that by (simp add: TimeClip_def abs_mult)
  have A: "\<bar>n\<bar> < 10000000 \<longrightarrow>
      toDateFromValue h (JNum n) = JDate (At (n * 86400000))
      \<and> toDateFromValue h (JBigInt n) = JDate (At (n * 86400000))"
    using day by (simp add: toDateFromValue_def date_of_number_def)
  have B: "10000000 \<le> \<bar>n\<bar> \<longrightarrow>
      toDateFromValue h (JNum n) = JDate (TimeClip n)
      \<and> toDateFromValue h (JBigInt n) = JDate (TimeClip n)"
    by (simp add: toDateFromValue_def date_of_number_def)
  have C: "10000000 \<le> \<bar>n\<bar> \<and> \<bar>n\<bar> \<le> 8640000000000000 \<longrightarrow>
      toDateFromValue h (JNum n) = JDate (At n)"
    by (simp add: toDateFromValue_def date_of_number_def TimeClip_def)
  have D: "typeId f \<in> {T_Date, T_DateDay, T_DateMillisecond} \<longrightarrow>
      convertArrowValue h (JNum n) f = toDateFromValue h (JNum n)"
    using convert_date_types [of f "JNum n" h] by (simp add: is_nullish_def)
  from A B C D show ?thesis by (intro conjI)
qed

theorem toDateFromValue_numeric_witness:
  "toDateFromValue plain_host (JNum 8298) = JDate (At 716947200000)
   \<and> toDateFromValue plain_host (JBigInt (- 1)) = JDate (At (- 86400000))
   \<and> toDateFromValue plain_host (JNum 716947200000) = JDate (At 716947200000)
   \<and> toDateFromValue plain_host (JBigInt 9000000000000000) = JDate Invalid
   \<and> convertArrowValue plain_host (JNum 8298) (Field ''dt'' T_Date [] NoUnit [])
       = JDate (At 716947200000)"
proof -
  have a: "\<bar>8298 :: int\<bar> < 10000000" by simp
  have b: "\<bar>- 1 :: int\<bar> < 10000000" by simp
  have c: "10000000 \<le> \<bar>716947200000 :: int\<bar> \<and> \<bar>716947200000 :: int\<bar> \<le> 8640000000000000"
    by simp
  have d: "10000000 \<le> \<bar>9000000000000000 :: int\<bar>" by simp
  have e: "typeId (Field ''dt'' T_Date [] NoUnit []) \<in> {T_Date, T_DateDay, T_DateMillisecond}"
    by simp
  have r1: "toDateFromValue plain_host (JNum 8298) = JDate (At 716947200000)"
  proof -
    from toDateFromValue_numeric [of 8298 plain_host] a
    have "toDateFromValue plain_host (JNum 8298) = JDate (At (8298 * 86400000))" by blast
    then show ?thesis by simp
  qed
  have r2: "toDateFromValue plain_host (JBigInt (- 1)) = JDate (At (- 86400000))"
  proof -
    from toDateFromValue_numeric [of "- 1" plain_host] b
    have "toDateFromValue plain_host (JBigInt (- 1)) = JDate (At (- 1 * 86400000))" by blast
    then show ?thesis by simp
  qed
  have r3: "toDateFromValue plain_host (JNum 716947200000) = JDate (At 716947200000)"
    using toDateFromValue_numeric [of 716947200000 plain_host] c by blast
  have r4: "toDateFromValue plain_host (JBigInt 9000000000000000) = JDate Invalid"
  proof -
    from toDateFromValue_numeric [of 9000000000000000 plain_host] d
    have "toDateFromValue plain_host (JBigInt 9000000000000000)
            = JDate (TimeClip 9000000000000000)" by blast
    then show ?thesis by (simp add: TimeClip_def)
  qed
  have r5: "convertArrowValue plain_host (JNum 8298) (Field ''dt'' T_Date [] NoUnit [])
       = JDate (At 716947200000)"
  proof -
    from toDateFromValue_numeric [of 8298 plain_host "Field ''dt'' T_Date [] NoUnit []"] e
    have "convertArrowValue plain_host (JNum 8298) (Field ''dt'' T_Date [] NoUnit [])
            = toDateFromValue plain_host (JNum 8298)" by blast
    with r1 show ?thesis by simp
  qed
  from r1 r2 r3 r4 r5 show ?thesis by (intro conjI)
qed

text \<open>
  C9: the conversion of a string date value always returns a \<open>Date\<close> and never throws;
  when the string matches neither the exact format nor the generic date parse, the
  \<open>Date\<close> is the invalid instant, which fails the validity check.
\<close>

theorem unparseable_date_string:
  "(\<exists>d. toDateFromValue h (JStr s) = JDate d)
   \<and> (match_date s = None \<and> new_Date_string h s = Invalid \<longrightarrow>
        toDateFromValue h (JStr s) = JDate Invalid
        \<and> \<not> is_valid_instant Invalid
        \<and> (typeId f \<in> {T_Date, T_DateDay, T_DateMillisecond} \<longrightarrow>
             convertArrowValue h (JStr s) f = JDate Invalid))"
proof -
  have A: "\<exists>d. toDateFromValue h (JStr s) = JDate d"
    by (simp add: toDateFromValue_def Let_def split: option.splits)
  have B: "toDateFromValue h (JStr s) = JDate Invalid"
    if "match_date s = None \<and> new_Date_string h s = Invalid"
    using that by (simp add: toDateFromValue_def Let_def is_valid_instant_def)
  have C: "convertArrowValue h (JStr s) f = toDateFromValue h (JStr s)"
    if "typeId f \<in> {T_Date, T_DateDay, T_DateMillisecond}"
    using convert_date_types [OF that, of "JStr s" h] by (simp add: is_nullish_def)
  from A B C show ?thesis by (simp add: is_valid_instant_def)
qed

theorem unparseable_date_string_witness:
  "toDateFromValue plain_host (JStr ''not a date'') = JDate Invalid
   \<and> convertArrowValue plain_host (JStr ''not a date'') (Field ''dt'' T_Date [] NoUnit [])
       = JDate Invalid"
proof -
  have m: "match_date ''not a date'' = None" by code_simp
  have p: "new_Date_string plain_host ''not a date'' = Invalid" by code_simp
  have e: "typeId (Field ''dt'' T_Date [] NoUnit []) \<in> {T_Date, T_DateDay, T_DateMillisecond}"
    by simp
  show ?thesis
    using unparseable_date_string [of plain_host "''not a date''" "Field ''dt'' T_Date [] NoUnit []"]
          m p e
    by blast
qed

text \<open>
  C10: for a field of the map type, an object without entries is not rendered as a
  string: it goes through the generic conversion (typed array, \<open>toArray\<close>, \<open>valueOf\<close>,
  \<open>toJSON\<close>, or the value itself); only an object with at least one entry becomes the
  string of its \<open>key=value\<close> pairs in braces.
\<close>

theorem empty_map_falls_through:
  assumes "typeId f = T_Map" and "is_object v"
  shows "(Object_entries v = [] \<longrightarrow> convertArrowValue h v f = generic_fallback v)
       \<and> (Object_entries v \<noteq> [] \<longrightarrow>
            convertArrowValue h v f = JStr (map_string h (Object_entries v)))"
proof -
  from assms(2) have nn: "\<not> is_nullish v"
    by (auto simp: is_object_def is_nullish_def)
  show ?thesis
    using assms nn by (subst convertArrowValue.simps, subst convertArrowValue.simps) simp
qed

theorem empty_map_falls_through_witness:
  "convertArrowValue plain_host (plain_object []) (Field ''m'' T_Map [] NoUnit []) = plain_object []
   \<and> convertArrowValue plain_host (JObject [] (Returns (JArray [])) ReturnsThis NoMethod)
        (Field ''m'' T_Map [] NoUnit []) = JArray []
   \<and> convertArrowValue plain_host (plain_object [(''x'', JStr ''y''), (''z'', JStr ''w'')])
        (Field ''m'' T_Map [] NoUnit []) = JStr ''{x=y, z=w}''"
proof -
  let ?f = "Field ''m'' T_Map [] NoUnit []"
  let ?row = "JObject [] (Returns (JArray [])) ReturnsThis NoMethod"
  let ?full = "plain_object [(''x'', JStr ''y''), (''z'', JStr ''w'')]"
  have t: "typeId ?f = T_Map" by simp
  have o1: "is_object (plain_object [])" by (simp add: is_object_def plain_object_def)
  have o2: "is_object ?row" by (simp add: is_object_def)
  have o3: "is_object ?full" by (simp add: is_object_def plain_object_def)
  have e1: "Object_entries (plain_object []) = []" by (simp add: Object_entries_def plain_object_def)
  have e2: "Object_entries ?row = []" by (simp add: Object_entries_def)
  have e3: "Object_entries ?full \<noteq> []" by (simp add: Object_entries_def plain_object_def)
  have g1: "generic_fallback (plain_object []) = plain_object []" by code_simp
  have g2: "generic_fallback ?row = JArray []" by code_simp
  have g3: "JStr (map_string plain_host (Object_entries ?full)) = JStr ''{x=y, z=w}''" by code_simp
  have r1: "convertArrowValue plain_host (plain_object []) ?f = plain_object []"
    using empty_map_falls_through [OF t o1, of plain_host] e1 g1 by simp
  have r2: "convertArrowValue plain_host ?row ?f = JArray []"
    using empty_map_falls_through [OF t o2, of plain_host] e2 g2 by simp
  have r3: "convertArrowValue plain_host ?full ?f = JStr ''{x=y, z=w}''"
    using empty_map_falls_through [OF t o3, of plain_host] e3 g3 by simp
  from r1 r2 r3 show ?thesis by (intro conjI)
qed

section \<open>Result batches\<close>












section \<open>Table creation\<close>

lemma createTablesAsSelect_append:
  "createTablesAsSelect ex pre c = (c', Inr ()) \<Longrightarrow>
     createTablesAsSelect ex (pre @ rest) c = createTablesAsSelect ex rest c'"
proof (induction pre arbitrary: c)
  case Nil
  then show ?case by simp
next
  case (Cons t pre)
  obtain n q where t: "t = (n, q)" by (cases t)
  from Cons.prems t show ?case
    by (auto simp: Cons.IH split: if_splits prod.splits sum.splits)
qed

lemma createTablesAsSelect_issued:
  "createTablesAsSelect ex pre c = (c', Inr ()) \<Longrightarrow>
     issued c' = issued c @ map (\<lambda>(n, q). ctas n q) pre"
proof (induction pre arbitrary: c)
  case Nil
  then show ?case by simp
next
  case (Cons t pre)
  obtain n q where t: "t = (n, q)" by (cases t)
  from Cons.prems t obtain c1 where
    e: "executeQuery ex (ctas n q) c = (c1, Inr ())"
    and r: "createTablesAsSelect ex pre c1 = (c', Inr ())"
    by (auto split: if_splits prod.splits sum.splits)
  from e have "issued c1 = issued c @ [ctas n q]"
    by (auto simp: executeQuery_def split: sum.splits)
  with Cons.IH [OF r] t show ?case by simp
qed

lemma message_names_identifier:
  "sublist name (invalid_name_message name)
   \<and> sublist IDENTIFIER_RE_source (invalid_name_message name)"
proof -
  have "invalid_name_message name
          = ''Invalid table name: '' @ name @ (''. Names must match '' @ IDENTIFIER_RE_source)"
    by (simp add: invalid_name_message_def)
  then have a: "sublist name (invalid_name_message name)"
    unfolding sublist_def by blast
  have "invalid_name_message name
          = (''Invalid table name: '' @ name @ ''. Names must match '') @ IDENTIFIER_RE_source @ []"
    by (simp add: invalid_name_message_def)
  then have b: "sublist IDENTIFIER_RE_source (invalid_name_message name)"
    unfolding sublist_def by blast
  from a b show ?thesis by simp
qed

text \<open>
  C5, as the code has it.  The names are checked one by one, each just before its own
  statement.  When a name does not match the identifier pattern and the statements of the
  names before it have succeeded, the call fails with an error whose message contains the
  name and the pattern; the statements issued are exactly those of the names before it,
  and none is issued for the offending name or for a later one.  When the offending name
  comes first, no statement is issued.
\<close>

theorem invalid_table_name_rejected:
  assumes "\<not> IDENTIFIER_RE_test name"
    and "createTablesAsSelect ex pre c = (c', Inr ())"
  shows "createTablesAsSelect ex (pre @ (name, q) # post) c
           = (c', Inl (Error (invalid_name_message name)))
       \<and> issued c' = issued c @ map (\<lambda>(n, q). ctas n q) pre
       \<and> (pre = [] \<longrightarrow> issued c' = issued c)
       \<and> sublist name (invalid_name_message name)
       \<and> sublist IDENTIFIER_RE_source (invalid_name_message name)"
proof -
  have A: "createTablesAsSelect ex (pre @ (name, q) # post) c
           = (c', Inl (Error (invalid_name_message name)))"
    using createTablesAsSelect_append [OF assms(2), of "(name, q) # post"] assms(1) by simp
  have B: "issued c' = issued c @ map (\<lambda>(n, q). ctas n q) pre"
    using assms(2) by (rule createTablesAsSelect_issued)
  have C: "pre = [] \<longrightarrow> issued c' = issued c"
    using B by simp
  from A B C message_names_identifier [of name] show ?thesis by (intro conjI) simp_all
qed

theorem invalid_table_name_rejected_witness:
  "createTablesAsSelect accept_all [(''bad-name'', ''select a from src'')] fresh_conn
     = (fresh_conn, Inl (Error (invalid_name_message ''bad-name'')))
   \<and> createTablesAsSelect accept_all
        [(''good'', ''select 1''), (''bad-name'', ''select 2''), (''later'', ''select 3'')]
        fresh_conn
     = (\<lparr>issued = [ctas ''good'' ''select 1''], engine = ()\<rparr>,
        Inl (Error (invalid_name_message ''bad-name'')))"
proof -
  have bad: "\<not> IDENTIFIER_RE_test ''bad-name''" by code_simp
  have p0: "createTablesAsSelect accept_all [] fresh_conn = (fresh_conn, Inr ())" by simp
  have p1: "createTablesAsSelect accept_all [(''good'', ''select 1'')] fresh_conn
              = (\<lparr>issued = [ctas ''good'' ''select 1''], engine = ()\<rparr>, Inr ())"
    by code_simp
  have r0: "createTablesAsSelect accept_all [(''bad-name'', ''select a from src'')] fresh_conn
     = (fresh_conn, Inl (Error (invalid_name_message ''bad-name'')))"
    using invalid_table_name_rejected [OF bad p0, of "''select a from src''" "[]"] by simp
  have r1: "createTablesAsSelect accept_all
        [(''good'', ''select 1''), (''bad-name'', ''select 2''), (''later'', ''select 3'')]
        fresh_conn
     = (\<lparr>issued = [ctas ''good'' ''select 1''], engine = ()\<rparr>,
        Inl (Error (invalid_name_message ''bad-name'')))"
    using invalid_table_name_rejected [OF bad p1, of "''select 2''" "[(''later'', ''select 3'')]"]
    by simp
  from r0 r1 show ?thesis by (intro conjI)
qed

text \<open>
  C5 as the specification states it fails: with the tables \<open>good\<close> and \<open>bad-name\<close> in this
  order, the statement for \<open>good\<close> has been issued when \<open>bad-name\<close> is rejected.
\<close>

theorem sql_issued_before_rejection_counterexample:
  "snd (createTablesAsSelect accept_all
          [(''good'', ''select 1''), (''bad-name'', ''select 2'')] fresh_conn)
     = Inl (Error (invalid_name_message ''bad-name''))
   \<and> issued (fst (createTablesAsSelect accept_all
          [(''good'', ''select 1''), (''bad-name'', ''select 2'')] fresh_conn))
     = [ctas ''good'' ''select 1'']
   \<and> issued (fst (createTablesAsSelect accept_all
          [(''good'', ''select 1''), (''bad-name'', ''select 2'')] fresh_conn)) \<noteq> []"
  by code_simp

section \<open>Table references\<close>

lemma sanitize_plain: "CHR 0x22 \<notin> set a \<Longrightarrow> sanitizeIdentifier a = a"
  by (induction a) (auto simp: sanitizeIdentifier_def)

text \<open>
  C4: for a table reference whose name is a key of the table mappings, \<open>visitTable\<close>
  appends the mapped expression as it is, without quotes.  An alias is never lost: when the
  parent is not an alias node and the reference carries a named alias, the output is the
  mapped expression, \<open>as\<close> and the quoted alias; when the parent is an alias node, the table
  appends the mapped expression only and the alias node appends \<open>as\<close> and its alias, so
  compiling \<open>person as p\<close> gives the mapped expression followed by \<open>as "p"\<close>.  A reference
  whose name is not mapped compiles to its quoted identifier.  Quoting wraps the identifier
  in double quotes, and an identifier without a double quote is unchanged between them.
\<close>

theorem visitTable_mapping_keeps_alias:
  "(cfg name = Some mapped \<longrightarrow>
      visitTable cfg parent (TableNode sch name None None) = mapped
      \<and> (\<not> is_alias_node parent \<and> a \<noteq> [] \<longrightarrow>
           visitTable cfg parent (TableNode sch name (Some (AliasString a)) ta)
             = mapped @ '' as '' @ quote_identifier a
           \<and> visitTable cfg parent (TableNode sch name None (Some (AliasString a)))
             = mapped @ '' as '' @ quote_identifier a
           \<and> visitTable cfg parent (TableNode sch name (Some (AliasIdentifierLike a)) ta)
             = mapped @ '' as '' @ quote_identifier a
           \<and> visitTable cfg parent (TableNode sch name (Some (AliasNodeKind (IdentifierNode a))) ta)
             = mapped @ '' as '' @ quote_identifier a)
      \<and> visitNode cfg parent (AliasNode (TableNode sch name na ta) (IdentifierNode a))
           = mapped @ '' as '' @ quote_identifier a)
   \<and> (cfg name = None \<longrightarrow>
        visitTable cfg parent (TableNode None name na ta) = quote_identifier name
        \<and> visitTable cfg parent (TableNode (Some s) name na ta)
             = quote_identifier s @ ''.'' @ quote_identifier name)
   \<and> (CHR 0x22 \<notin> set a \<longrightarrow> quote_identifier a = [CHR 0x22] @ a @ [CHR 0x22])"
proof -
  have M: "cfg name = Some mapped \<longrightarrow>
      visitTable cfg parent (TableNode sch name None None) = mapped
      \<and> (\<not> is_alias_node parent \<and> a \<noteq> [] \<longrightarrow>
           visitTable cfg parent (TableNode sch name (Some (AliasString a)) ta)
             = mapped @ '' as '' @ quote_identifier a
           \<and> visitTable cfg parent (TableNode sch name None (Some (AliasString a)))
             = mapped @ '' as '' @ quote_identifier a
           \<and> visitTable cfg parent (TableNode sch name (Some (AliasIdentifierLike a)) ta)
             = mapped @ '' as '' @ quote_identifier a
           \<and> visitTable cfg parent (TableNode sch name (Some (AliasNodeKind (IdentifierNode a))) ta)
             = mapped @ '' as '' @ quote_identifier a)
      \<and> visitNode cfg parent (AliasNode (TableNode sch name na ta) (IdentifierNode a))
           = mapped @ '' as '' @ quote_identifier a"
    by (simp add: coalesce_def alias_truthy_def quote_identifier_def is_alias_node_def)
  have U: "cfg name = None \<longrightarrow>
        visitTable cfg parent (TableNode None name na ta) = quote_identifier name
        \<and> visitTable cfg parent (TableNode (Some s) name na ta)
             = quote_identifier s @ ''.'' @ quote_identifier name"
    by (simp add: default_visitTable_def)
  have Q: "CHR 0x22 \<notin> set a \<longrightarrow> quote_identifier a = [CHR 0x22] @ a @ [CHR 0x22]"
    by (simp add: quote_identifier_def sanitize_plain getLeftIdentifierWrapper_def
                  getRightIdentifierWrapper_def)
  from M U Q show ?thesis by (intro conjI)
qed

theorem visitTable_mapping_keeps_alias_witness:
  "visitNode person_mappings None
     (AliasNode (TableNode None ''person'' None None) (IdentifierNode ''p''))
     = ''read_json('person.json') as '' @ [CHR 0x22, CHR ''p'', CHR 0x22]
   \<and> visitTable person_mappings None (TableNode None ''person'' (Some (AliasString ''p'')) None)
     = ''read_json('person.json') as '' @ [CHR 0x22, CHR ''p'', CHR 0x22]
   \<and> visitTable person_mappings None (TableNode None ''pet'' None None)
     = [CHR 0x22] @ ''pet'' @ [CHR 0x22]"
proof -
  have m: "person_mappings ''person'' = Some ''read_json('person.json')''"
    by (simp add: person_mappings_def)
  have u: "person_mappings ''pet'' = None" by (simp add: person_mappings_def)
  have p: "\<not> is_alias_node None \<and> ''p'' \<noteq> []" by (simp add: is_alias_node_def)
  have q: "CHR 0x22 \<notin> set ''p''" by simp
  have q': "CHR 0x22 \<notin> set ''pet''" by simp
  have qp: "quote_identifier ''p'' = [CHR 0x22, CHR ''p'', CHR 0x22]"
    using visitTable_mapping_keeps_alias [of _ _ _ _ _ "''p''"] q by simp
  have qpet: "quote_identifier ''pet'' = [CHR 0x22] @ ''pet'' @ [CHR 0x22]"
    using visitTable_mapping_keeps_alias [of _ _ _ _ _ "''pet''"] q' by blast
  have r1: "visitNode person_mappings None
     (AliasNode (TableNode None ''person'' None None) (IdentifierNode ''p''))
     = ''read_json('person.json')'' @ '' as '' @ quote_identifier ''p''"
    using visitTable_mapping_keeps_alias
            [of person_mappings "''person''" "''read_json('person.json')''" None None "''p''"]
          m by blast
  have r2: "visitTable person_mappings None (TableNode None ''person'' (Some (AliasString ''p'')) None)
     = ''read_json('person.json')'' @ '' as '' @ quote_identifier ''p''"
    using visitTable_mapping_keeps_alias
            [of person_mappings "''person''" "''read_json('person.json')''" None None "''p''"]
          m p by blast
  have r3: "visitTable person_mappings None (TableNode None ''pet'' None None)
     = quote_identifier ''pet''"
    using visitTable_mapping_keeps_alias [of person_mappings "''pet''"] u by blast
  from r1 r2 r3 qp qpet show ?thesis by simp
qed

section \<open>Intervals\<close>

lemma nanos64_halves:
  assumes "0 \<le> lo" "lo < 4294967296" "- 2147483648 \<le> hi" "hi < 2147483648"
  shows "nanos64 hi lo = hi * 4294967296 + lo"
proof (cases "0 \<le> hi")
  case True
  with assms have "hi mod 4294967296 = hi" "lo mod 4294967296 = lo" by simp_all
  with True assms show ?thesis by (simp add: nanos64_def Let_def)
next
  case False
  with assms have h: "hi mod 4294967296 = hi + 4294967296"
    by (smt (verit) mod_add_self2 mod_pos_pos_trivial)
  from assms have l: "lo mod 4294967296 = lo" by simp
  from False assms show ?thesis by (simp add: nanos64_def Let_def h l)
qed

lemma convert_interval_field:
  "typeId f = T_Interval \<Longrightarrow> \<not> is_nullish v \<Longrightarrow>
     convertArrowValue h v f
       = (case convert_interval h v f of Some r \<Rightarrow> r | None \<Rightarrow> generic_fallback v)"
  by (subst convertArrowValue.simps) simp

text \<open>
  The low half of the nanosecond count is read as a signed element of the \<open>Int32Array\<close>:
  three seconds, whose low half is \<open>0xB2D05E00\<close>, come out negative.
\<close>

lemma low_half_read_signed:
  "convertArrowValue plain_host (JTyped Int32 [0, 0, 0, - 1294967296])
       (Field ''delta'' T_Interval [] MONTH_DAY_NANO [])
     = interval_object (JNum 0) (JNum 0) (JNum (- 1294968))
   \<and> nanos64 0 (- 1294967296) div 1000 = 3000000"
  by code_simp

text \<open>
  C7, as the code has it, for a field of the interval type.  A typed array of four or more
  elements whose fourth element is not negative, and whose nanosecond count is below
  \<open>2^53\<close> in magnitude, gives the first two elements as months and days, and as microseconds
  the floor of a thousandth of the 64-bit nanosecond count that has the third element as
  its high half and the fourth as its low half.  Nothing is stated for a negative fourth
  element or a larger count.  A typed array of three elements is taken as it is.  A typed
  array of two elements with the year-month unit gives \<open>years * 12 + months\<close> months, with
  the day-time unit the days and the milliseconds times 1000.  A plain array is taken by
  position, without a conversion: its first three elements, or its first two with zero
  microseconds, a falsy element as 0.  Every result for an array of two or more elements
  is an object of months, days and micros.
\<close>

theorem interval_conversion:
  assumes "typeId f = T_Interval"
  shows "(length arr \<ge> 4 \<and> 0 \<le> arr ! 3 \<and> arr ! 3 < 4294967296
            \<and> \<bar>arr ! 2 * 4294967296 + arr ! 3\<bar> < 9007199254740992 \<longrightarrow>
          convertArrowValue h (JTyped k arr) f
            = interval_object (JNum (arr ! 0)) (JNum (arr ! 1))
                              (JNum (nanos64 (arr ! 2) (arr ! 3) div 1000)))
       \<and> (length arr = 3 \<longrightarrow>
          convertArrowValue h (JTyped k arr) f
            = interval_object (JNum (arr ! 0)) (JNum (arr ! 1)) (JNum (arr ! 2)))
       \<and> (length arr = 2 \<and> funit f = YEAR_MONTH \<longrightarrow>
          convertArrowValue h (JTyped k arr) f
            = interval_object (JNum (arr ! 0 * 12 + arr ! 1)) (JNum 0) (JNum 0))
       \<and> (length arr = 2 \<and> funit f = DAY_TIME \<longrightarrow>
          convertArrowValue h (JTyped k arr) f
            = interval_object (JNum 0) (JNum (arr ! 0)) (JNum (arr ! 1 * 1000)))
       \<and> (length xs \<ge> 3 \<longrightarrow>
          convertArrowValue h (JArray xs) f
            = interval_object (or_zero (xs ! 0)) (or_zero (xs ! 1)) (or_zero (xs ! 2)))
       \<and> (length xs = 2 \<longrightarrow>
          convertArrowValue h (JArray xs) f
            = interval_object (or_zero (xs ! 0)) (or_zero (xs ! 1)) (JNum 0))
       \<and> (length arr \<ge> 2 \<longrightarrow>
          (\<exists>months days micros.
             convertArrowValue h (JTyped k arr) f = interval_object months days micros))
       \<and> (length xs \<ge> 2 \<longrightarrow>
          (\<exists>months days micros.
             convertArrowValue h (JArray xs) f = interval_object months days micros))"
proof -
  have T: "convertArrowValue h (JTyped k arr) f
       = (case convert_interval h (JTyped k arr) f of
            Some r \<Rightarrow> r | None \<Rightarrow> generic_fallback (JTyped k arr))"
    using assms by (intro convert_interval_field) (simp_all add: is_nullish_def)
  have A: "convertArrowValue h (JArray xs) f
       = (case convert_interval h (JArray xs) f of
            Some r \<Rightarrow> r | None \<Rightarrow> generic_fallback (JArray xs))"
    using assms by (intro convert_interval_field) (simp_all add: is_nullish_def)
  have c1: "length arr \<ge> 4 \<and> 0 \<le> arr ! 3 \<and> arr ! 3 < 4294967296
            \<and> \<bar>arr ! 2 * 4294967296 + arr ! 3\<bar> < 9007199254740992 \<longrightarrow>
          convertArrowValue h (JTyped k arr) f
            = interval_object (JNum (arr ! 0)) (JNum (arr ! 1))
                              (JNum (nanos64 (arr ! 2) (arr ! 3) div 1000))"
  proof
    assume p: "length arr \<ge> 4 \<and> 0 \<le> arr ! 3 \<and> arr ! 3 < 4294967296
            \<and> \<bar>arr ! 2 * 4294967296 + arr ! 3\<bar> < 9007199254740992"
    then have "- 2147483648 \<le> arr ! 2 \<and> arr ! 2 < 2147483648" by linarith
    with p have "nanos64 (arr ! 2) (arr ! 3) = arr ! 2 * 4294967296 + arr ! 3"
      by (intro nanos64_halves) simp_all
    with p show "convertArrowValue h (JTyped k arr) f
            = interval_object (JNum (arr ! 0)) (JNum (arr ! 1))
                              (JNum (nanos64 (arr ! 2) (arr ! 3) div 1000))"
      by (simp add: T convert_interval_def floor_div_1000_def Let_def)
  qed
  have c2: "length arr = 3 \<longrightarrow>
          convertArrowValue h (JTyped k arr) f
            = interval_object (JNum (arr ! 0)) (JNum (arr ! 1)) (JNum (arr ! 2))"
    by (simp add: T convert_interval_def)
  have c3: "length arr = 2 \<and> funit f = YEAR_MONTH \<longrightarrow>
          convertArrowValue h (JTyped k arr) f
            = interval_object (JNum (arr ! 0 * 12 + arr ! 1)) (JNum 0) (JNum 0)"
    by (simp add: T convert_interval_def)
  have c4: "length arr = 2 \<and> funit f = DAY_TIME \<longrightarrow>
          convertArrowValue h (JTyped k arr) f
            = interval_object (JNum 0) (JNum (arr ! 0)) (JNum (arr ! 1 * 1000))"
    by (simp add: T convert_interval_def)
  have c5: "length xs \<ge> 3 \<longrightarrow>
          convertArrowValue h (JArray xs) f
            = interval_object (or_zero (xs ! 0)) (or_zero (xs ! 1)) (or_zero (xs ! 2))"
    by (simp add: A convert_interval_def js_index_def)
  have c6: "length xs = 2 \<longrightarrow>
          convertArrowValue h (JArray xs) f
            = interval_object (or_zero (xs ! 0)) (or_zero (xs ! 1)) (JNum 0)"
    by (simp add: A convert_interval_def js_index_def)
  have c7: "length arr \<ge> 2 \<longrightarrow>
          (\<exists>months days micros.
             convertArrowValue h (JTyped k arr) f = interval_object months days micros)"
    unfolding T by (auto simp: convert_interval_def Let_def)
  have c8: "length xs \<ge> 2 \<longrightarrow>
          (\<exists>months days micros.
             convertArrowValue h (JArray xs) f = interval_object months days micros)"
    unfolding A by (auto simp: convert_interval_def)
  from c1 c2 c3 c4 c5 c6 c7 c8 show ?thesis by (intro conjI)
qed

theorem interval_conversion_witness:
  "convertArrowValue plain_host (JTyped Int32 [1, 2, 0, 5000])
       (Field ''delta'' T_Interval [] MONTH_DAY_NANO [])
     = interval_object (JNum 1) (JNum 2) (JNum 5)
   \<and> convertArrowValue plain_host (JTyped Int32 [1, 0]) (Field ''delta'' T_Interval [] YEAR_MONTH [])
     = interval_object (JNum 12) (JNum 0) (JNum 0)
   \<and> convertArrowValue plain_host (JTyped Int32 [3, 1500]) (Field ''delta'' T_Interval [] DAY_TIME [])
     = interval_object (JNum 0) (JNum 3) (JNum 1500000)
   \<and> convertArrowValue plain_host (JArray [JNum 1, JNum 2, JNum 3])
       (Field ''delta'' T_Interval [] MONTH_DAY_NANO [])
     = interval_object (JNum 1) (JNum 2) (JNum 3)"
proof -
  let ?n = "Field ''delta'' T_Interval [] MONTH_DAY_NANO []"
  let ?y = "Field ''delta'' T_Interval [] YEAR_MONTH []"
  let ?d = "Field ''delta'' T_Interval [] DAY_TIME []"
  have tn: "typeId ?n = T_Interval" and ty: "typeId ?y = T_Interval"
    and td: "typeId ?d = T_Interval" by simp_all
  have p1: "length [1, 2, 0, 5000 :: int] \<ge> 4 \<and> 0 \<le> [1, 2, 0, 5000 :: int] ! 3
            \<and> [1, 2, 0, 5000 :: int] ! 3 < 4294967296
            \<and> \<bar>[1, 2, 0, 5000 :: int] ! 2 * 4294967296 + [1, 2, 0, 5000 :: int] ! 3\<bar>
                 < 9007199254740992" by simp
  have n1: "nanos64 0 5000 div 1000 = 5" by code_simp
  have p2: "length [1, 0 :: int] = 2 \<and> funit ?y = YEAR_MONTH" by simp
  have p3: "length [3, 1500 :: int] = 2 \<and> funit ?d = DAY_TIME" by simp
  have p4: "length [JNum 1, JNum 2, JNum 3] \<ge> 3" by simp
  have o: "or_zero (JNum 1) = JNum 1" "or_zero (JNum 2) = JNum 2" "or_zero (JNum 3) = JNum 3"
    by (simp_all add: or_zero_def truthy_def)
  have r1: "convertArrowValue plain_host (JTyped Int32 [1, 2, 0, 5000]) ?n
     = interval_object (JNum 1) (JNum 2) (JNum 5)"
  proof -
    from interval_conversion [OF tn, where arr = "[1, 2, 0, 5000]" and h = plain_host and k = Int32] p1
    have "convertArrowValue plain_host (JTyped Int32 [1, 2, 0, 5000]) ?n
            = interval_object (JNum ([1, 2, 0, 5000] ! 0)) (JNum ([1, 2, 0, 5000] ! 1))
                (JNum (nanos64 ([1, 2, 0, 5000] ! 2) ([1, 2, 0, 5000] ! 3) div 1000))"
      by blast
    then show ?thesis using n1 by simp
  qed
  have r2: "convertArrowValue plain_host (JTyped Int32 [1, 0]) ?y
     = interval_object (JNum 12) (JNum 0) (JNum 0)"
  proof -
    from interval_conversion [OF ty, where arr = "[1, 0]" and h = plain_host and k = Int32] p2
    have "convertArrowValue plain_host (JTyped Int32 [1, 0]) ?y
            = interval_object (JNum ([1, 0] ! 0 * 12 + [1, 0] ! 1)) (JNum 0) (JNum 0)"
      by blast
    then show ?thesis by simp
  qed
  have r3: "convertArrowValue plain_host (JTyped Int32 [3, 1500]) ?d
     = interval_object (JNum 0) (JNum 3) (JNum 1500000)"
  proof -
    from interval_conversion [OF td, where arr = "[3, 1500]" and h = plain_host and k = Int32] p3
    have "convertArrowValue plain_host (JTyped Int32 [3, 1500]) ?d
            = interval_object (JNum 0) (JNum ([3, 1500] ! 0)) (JNum ([3, 1500] ! 1 * 1000))"
      by blast
    then show ?thesis by simp
  qed
  have r4: "convertArrowValue plain_host (JArray [JNum 1, JNum 2, JNum 3]) ?n
     = interval_object (JNum 1) (JNum 2) (JNum 3)"
  proof -
    from interval_conversion [OF tn, where xs = "[JNum 1, JNum 2, JNum 3]" and h = plain_host] p4
    have "convertArrowValue plain_host (JArray [JNum 1, JNum 2, JNum 3]) ?n
            = interval_object (or_zero ([JNum 1, JNum 2, JNum 3] ! 0))
                (or_zero ([JNum 1, JNum 2, JNum 3] ! 1)) (or_zero ([JNum 1, JNum 2, JNum 3] ! 2))"
      by blast
    then show ?thesis using o by simp
  qed
  from r1 r2 r3 r4 show ?thesis by (intro conjI)
qed

text \<open>
  C7 as the specification states it fails for plain arrays: a four-value array with the
  halves 0 and 5000 gives 0 microseconds, not 5, and the two-value array of one year and no
  months with the year-month unit gives 1 month, not 12.
\<close>

theorem plain_array_interval_counterexample:
  "convertArrowValue plain_host (JArray [JNum 0, JNum 0, JNum 0, JNum 5000])
       (Field ''delta'' T_Interval [] MONTH_DAY_NANO [])
     = interval_object (JNum 0) (JNum 0) (JNum 0)
   \<and> convertArrowValue plain_host (JArray [JNum 0, JNum 0, JNum 0, JNum 5000])
       (Field ''delta'' T_Interval [] MONTH_DAY_NANO [])
     \<noteq> interval_object (JNum 0) (JNum 0) (JNum (nanos64 0 5000 div 1000))
   \<and> convertArrowValue plain_host (JArray [JNum 1, JNum 0])
       (Field ''delta'' T_Interval [] YEAR_MONTH [])
     = interval_object (JNum 1) (JNum 0) (JNum 0)
   \<and> convertArrowValue plain_host (JArray [JNum 1, JNum 0])
       (Field ''delta'' T_Interval [] YEAR_MONTH [])
     \<noteq> interval_object (JNum (1 * 12 + 0)) (JNum 0) (JNum 0)"
  by code_simp

section \<open>Timestamps\<close>




lemma digits_n_two [simp]: "digits_n 2 (two_digits n @ r) = Some (two_digits n, r)"
  by (simp add: digits_n_def two_digits_def)

lemma digits_n_three [simp]: "digits_n 3 (three_digits n @ r) = Some (three_digits n, r)"
  by (simp add: digits_n_def three_digits_def)

lemma digits_n_four [simp]: "digits_n 4 (four_digits n @ r) = Some (four_digits n, r)"
  by (simp add: digits_n_def four_digits_def)

lemma expect_Cons [simp]: "expect c (x # r) = (if x = c then Some r else None)"
  by (simp add: expect_def)





lemma no_space_digits [simp]:
  "CHR '' '' \<notin> set (two_digits n)" "CHR '' '' \<notin> set (three_digits n)"
  "CHR '' '' \<notin> set (four_digits n)"
  by (simp_all add: two_digits_def three_digits_def four_digits_def)

lemma no_Z_digits [simp]:
  "CHR ''Z'' \<notin> set (two_digits n)" "CHR ''Z'' \<notin> set (three_digits n)"
  "CHR ''Z'' \<notin> set (four_digits n)"
  by (simp_all add: two_digits_def three_digits_def four_digits_def)







lemma digits_n_two_end [simp]: "digits_n 2 (two_digits n) = Some (two_digits n, [])"
  using digits_n_two [of n "[]"] by simp







lemma not_sign_digit [simp]: "\<not> is_sign (dec_char n)"
  by (simp add: is_sign_def)




lemma no_space_tail [simp]:
  "CHR '' '' \<notin> set (fraction_text ms)" "CHR '' '' \<notin> set (offset_text west oh om)"
  by (simp_all add: fraction_text_def offset_text_def split: option.splits)



lemma no_space_short_offsets [simp]:
  "CHR '' '' \<notin> set (hour_offset_text west oh)"
  "CHR '' '' \<notin> set (compact_offset_text west oh om)"
  by (simp_all add: hour_offset_text_def compact_offset_text_def)

lemma not_colon_digit [simp]: "dec_char n \<noteq> CHR '':''" "CHR '':'' \<noteq> dec_char n"
proof -
  have "\<not> is_digit (CHR '':'')" by (simp add: is_digit_def)
  then show "dec_char n \<noteq> CHR '':''" using dec_char_digit [of n] by auto
  then show "CHR '':'' \<noteq> dec_char n" by (rule not_sym)
qed









end
